theory Spec2Isabelle
  imports Complex_Main "HOL-Library.Word"
begin

section \<open>JavaScript values\<close>

text \<open>
  A JavaScript string is a sequence of UTF-16 code units, and \<open>length\<close> counts code
  units. \<open>js\<close> turns an ASCII literal of the source into such a string.
\<close>

type_synonym jschar = "16 word"
type_synonym jsstring = "jschar list"

definition js :: "string \<Rightarrow> jsstring" where
  "js s = map (\<lambda>c. of_nat (of_char c)) s"

text \<open>
  The values that reach the store's actions at run time: what \<open>JSON.parse\<close> can
  return, and the object literals the flows build themselves. A number is the rational
  value of the double, or one of the two infinities (which \<open>JSON.parse\<close> yields on
  overflow). An object is its list of own properties; a property whose value is
  \<open>undefined\<close> is left out of the list, and \<open>undefined\<close> itself is \<open>None\<close> of
  \<open>jsval option\<close>.
\<close>

datatype jsval =
    JNull
  | JBool bool
  | JNum rat
  | JInfinity bool
  | JStr jsstring
  | JArr "jsval list"
  | JObj "(jsstring \<times> jsval) list"

text \<open>\<open>if (v)\<close>: ToBoolean.\<close>

fun truthy :: "jsval \<Rightarrow> bool" where
  "truthy JNull = False"
| "truthy (JBool b) = b"
| "truthy (JNum q) = (q \<noteq> 0)"
| "truthy (JInfinity _) = True"
| "truthy (JStr s) = (s \<noteq> [])"
| "truthy (JArr _) = True"
| "truthy (JObj _) = True"

text \<open>
  What a \<open>throw\<close> carries: an \<open>Error\<close> instance with its message, or any other value.
  The catch blocks of the source tell the two apart with \<open>error instanceof Error\<close>.
\<close>

datatype exn = Error jsstring | Thrown jsval

text \<open>
  Errors that the libraries and the engine raise on the store's behalf: a failed
  mobx-state-tree type check (the name of the type and the rejected value) and a
  property read on \<open>null\<close>. Both are \<open>Error\<close> instances whose message text the
  library or engine chooses.
\<close>

datatype fault = TypeCheck jsstring jsval | NullProperty jsstring

text \<open>
  The built-ins the store calls, taken as parameters: \<open>JSON.parse\<close> (\<open>Inl\<close> when it
  throws), \<open>JSON.stringify\<close>, the time value \<open>new Date(string)\<close> denotes (\<open>None\<close>
  for an invalid date), \<open>Date.prototype.toISOString\<close> on a time value in milliseconds
  (clock readings are taken to lie inside the range of valid dates), and the message of
  a library error.
\<close>

record host =
  JSON_parse :: "jsstring \<Rightarrow> exn + jsval"
  JSON_stringify :: "jsval \<Rightarrow> jsstring"
  Date_parse :: "jsstring \<Rightarrow> int option"
  toISOString :: "int \<Rightarrow> jsstring"
  fault_message :: "fault \<Rightarrow> jsstring"

definition raise :: "host \<Rightarrow> fault \<Rightarrow> exn" where
  "raise h f = Error (fault_message h f)"

text \<open>
  \<open>v.k\<close> on a value other than \<open>null\<close>, for the property names the store reads
  (none of them is inherited from a prototype): an own property of an object, and
  \<open>undefined\<close> on anything else.
\<close>

fun field :: "jsval \<Rightarrow> jsstring \<Rightarrow> jsval option" where
  "field (JObj kvs) k = map_of kvs k"
| "field _ k = None"

text \<open>An object literal \<open>{k1: v1, ...}\<close>; properties set to \<open>undefined\<close> are dropped.\<close>

fun object_literal :: "(jsstring \<times> jsval option) list \<Rightarrow> (jsstring \<times> jsval) list" where
  "object_literal [] = []"
| "object_literal ((k, None) # kvs) = object_literal kvs"
| "object_literal ((k, Some v) # kvs) = (k, v) # object_literal kvs"

text \<open>\<open>"prefix" + n\<close> for an integral number \<open>n\<close>: its decimal digits.\<close>

function digits :: "int \<Rightarrow> jsstring" where
  "digits n = (if n < 10 then [of_int (48 + n)] else digits (n div 10) @ [of_int (48 + n mod 10)])"
  by pat_completeness auto
termination
  by (relation "measure nat") auto

definition Number_toString :: "int \<Rightarrow> jsstring" where
  "Number_toString i = (if i < 0 then js ''-'' @ digits (- i) else digits i)"

section \<open>Models (models.ts)\<close>

record User =
  user_id :: jsstring
  email :: jsstring
  name :: "jsstring option"
  avatar :: "jsstring option"

record UserSession =
  token :: jsstring
  expiresAt :: "jsstring option"
  refreshToken :: "jsstring option"

datatype Theme = Light | Dark | System

record UserPreferences =
  theme :: Theme
  language :: jsstring
  notifications :: bool

fun theme_name :: "Theme \<Rightarrow> jsstring" where
  "theme_name Light = js ''light''"
| "theme_name Dark = js ''dark''"
| "theme_name System = js ''system''"

text \<open>The checks of the property types; the outer \<open>None\<close> is a failed check.\<close>

fun types_string :: "jsval option \<Rightarrow> jsstring option" where
  "types_string (Some (JStr s)) = Some s"
| "types_string _ = None"

fun types_maybe_string :: "jsval option \<Rightarrow> jsstring option option" where
  "types_maybe_string None = Some None"
| "types_maybe_string (Some (JStr s)) = Some (Some s)"
| "types_maybe_string _ = None"

definition types_enumeration :: "jsval option \<Rightarrow> Theme option" where
  "types_enumeration v =
     (case v of
        Some (JStr s) \<Rightarrow>
          (if s = js ''light'' then Some Light
           else if s = js ''dark'' then Some Dark
           else if s = js ''system'' then Some System
           else None)
      | _ \<Rightarrow> None)"

fun types_boolean :: "jsval option \<Rightarrow> bool option" where
  "types_boolean (Some (JBool b)) = Some b"
| "types_boolean _ = None"

text \<open>\<open>types.optional(t, d)\<close>: \<open>undefined\<close> stands for the default.\<close>

definition types_optional :: "(jsval option \<Rightarrow> 'a option) \<Rightarrow> 'a \<Rightarrow> jsval option \<Rightarrow> 'a option" where
  "types_optional t d v = (case v of None \<Rightarrow> Some d | Some _ \<Rightarrow> t v)"

text \<open>
  \<open>Model.create(snapshot)\<close>: the snapshot has to be a plain object whose declared
  properties pass their checks (properties the model does not declare are ignored);
  otherwise the type check throws. The checks are those mobx-state-tree makes outside
  production builds.
\<close>

definition User_create :: "host \<Rightarrow> jsval \<Rightarrow> exn + User" where
  "User_create h v =
     (case v of
        JObj kvs \<Rightarrow>
          (case (types_string (map_of kvs (js ''id'')),
                 types_string (map_of kvs (js ''email'')),
                 types_maybe_string (map_of kvs (js ''name'')),
                 types_maybe_string (map_of kvs (js ''avatar''))) of
             (Some i, Some e, Some n, Some a) \<Rightarrow>
               Inr \<lparr>user_id = i, email = e, name = n, avatar = a\<rparr>
           | _ \<Rightarrow> Inl (raise h (TypeCheck (js ''User'') v)))
      | _ \<Rightarrow> Inl (raise h (TypeCheck (js ''User'') v)))"

definition UserSession_create :: "host \<Rightarrow> jsval \<Rightarrow> exn + UserSession" where
  "UserSession_create h v =
     (case v of
        JObj kvs \<Rightarrow>
          (case (types_string (map_of kvs (js ''token'')),
                 types_maybe_string (map_of kvs (js ''expiresAt'')),
                 types_maybe_string (map_of kvs (js ''refreshToken''))) of
             (Some t, Some e, Some r) \<Rightarrow>
               Inr \<lparr>token = t, expiresAt = e, refreshToken = r\<rparr>
           | _ \<Rightarrow> Inl (raise h (TypeCheck (js ''UserSession'') v)))
      | _ \<Rightarrow> Inl (raise h (TypeCheck (js ''UserSession'') v)))"

definition UserPreferences_create :: "host \<Rightarrow> jsval \<Rightarrow> exn + UserPreferences" where
  "UserPreferences_create h v =
     (case v of
        JObj kvs \<Rightarrow>
          (case (types_optional types_enumeration System (map_of kvs (js ''theme'')),
                 types_optional types_string (js ''en'') (map_of kvs (js ''language'')),
                 types_optional types_boolean True (map_of kvs (js ''notifications''))) of
             (Some t, Some l, Some n) \<Rightarrow>
               Inr \<lparr>theme = t, language = l, notifications = n\<rparr>
           | _ \<Rightarrow> Inl (raise h (TypeCheck (js ''UserPreferences'') v)))
      | _ \<Rightarrow> Inl (raise h (TypeCheck (js ''UserPreferences'') v)))"

text \<open>
  The snapshot of a model instance, which is what \<open>JSON.stringify\<close> serialises when it
  is handed the instance: the declared properties in declaration order, without those
  that are \<open>undefined\<close>.
\<close>

definition maybe_prop :: "string \<Rightarrow> jsstring option \<Rightarrow> (jsstring \<times> jsval) list" where
  "maybe_prop k v = (case v of None \<Rightarrow> [] | Some s \<Rightarrow> [(js k, JStr s)])"

definition User_snapshot :: "User \<Rightarrow> jsval" where
  "User_snapshot u =
     JObj ([(js ''id'', JStr (user_id u)), (js ''email'', JStr (email u))]
           @ maybe_prop ''name'' (name u) @ maybe_prop ''avatar'' (avatar u))"

definition UserSession_snapshot :: "UserSession \<Rightarrow> jsval" where
  "UserSession_snapshot s =
     JObj ([(js ''token'', JStr (token s))]
           @ maybe_prop ''expiresAt'' (expiresAt s) @ maybe_prop ''refreshToken'' (refreshToken s))"

definition UserPreferences_snapshot :: "UserPreferences \<Rightarrow> jsval" where
  "UserPreferences_snapshot p =
     JObj [(js ''theme'', JStr (theme_name (theme p))),
           (js ''language'', JStr (language p)),
           (js ''notifications'', JBool (notifications p))]"

section \<open>The store and its storage\<close>

text \<open>
  Modelled from the spec: the module \<open>utils/storage\<close> is not among the sources. The
  spec describes it as a local key-value storage that holds strings under string keys, so
  the storage is a map, and \<open>storage.set\<close>, \<open>storage.getString\<close> and
  \<open>storage.delete\<close> are its update, lookup and removal.
\<close>

type_synonym key_value_storage = "jsstring \<rightharpoonup> jsstring"

abbreviation storage_set :: "jsstring \<Rightarrow> jsstring \<Rightarrow> key_value_storage \<Rightarrow> key_value_storage" where
  "storage_set k v st \<equiv> st(k \<mapsto> v)"

abbreviation storage_getString :: "jsstring \<Rightarrow> key_value_storage \<Rightarrow> jsstring option" where
  "storage_getString k st \<equiv> st k"

abbreviation storage_delete :: "jsstring \<Rightarrow> key_value_storage \<Rightarrow> key_value_storage" where
  "storage_delete k st \<equiv> st(k := None)"

text \<open>
  The fields of the UserStore model (UserStore.ts), together with the storage its actions
  write to.
\<close>

record world =
  currentUser :: "User option"
  session :: "UserSession option"
  preferences :: "UserPreferences option"
  isLoading :: bool
  isAuthenticating :: bool
  error :: "jsstring option"
  storage :: key_value_storage

text \<open>\<open>UserStore.create({})\<close> over a given storage.\<close>

definition fresh :: "key_value_storage \<Rightarrow> world" where
  "fresh st = \<lparr>currentUser = None, session = None, preferences = None,
               isLoading = False, isAuthenticating = False, error = None, storage = st\<rparr>"

text \<open>
  An action runs on the state and either returns a value or throws; what it changed
  before throwing stays changed.
\<close>

type_synonym 'a action = "world \<Rightarrow> (exn + 'a) \<times> world"

definition ok :: "'a \<Rightarrow> 'a action" where
  "ok v w = (Inr v, w)"

definition run :: "(world \<Rightarrow> world) \<Rightarrow> unit action" where
  "run f w = (Inr (), f w)"

definition andThen :: "'a action \<Rightarrow> ('a \<Rightarrow> 'b action) \<Rightarrow> 'b action" where
  "andThen m f w = (case m w of (Inl e, w') \<Rightarrow> (Inl e, w') | (Inr v, w') \<Rightarrow> f v w')"

definition seq :: "unit action \<Rightarrow> 'b action \<Rightarrow> 'b action" where
  "seq m k = andThen m (\<lambda>_. k)"

text \<open>\<open>try { body } catch (e) { handler }\<close> and the same with a \<open>finally\<close> block that does not throw.\<close>

definition try_catch :: "'a action \<Rightarrow> (exn \<Rightarrow> 'a action) \<Rightarrow> 'a action" where
  "try_catch body handler w =
     (case body w of (Inl e, w') \<Rightarrow> handler e w' | (Inr v, w') \<Rightarrow> (Inr v, w'))"

definition try_catch_finally ::
  "'a action \<Rightarrow> (exn \<Rightarrow> 'a action) \<Rightarrow> (world \<Rightarrow> world) \<Rightarrow> 'a action" where
  "try_catch_finally body handler final w =
     (case try_catch body handler w of (r, w') \<Rightarrow> (r, final w'))"

text \<open>
  \<open>yield promise\<close>: the flow resumes with the promise's outcome, \<open>Inr ()\<close> when it
  resolves and \<open>Inl e\<close> when it rejects with \<open>e\<close>. The timers the source awaits always
  resolve; the rejection is the failure of the API call the timer stands for, which is
  what the catch blocks handle. No other action runs while a flow waits.
\<close>

definition await :: "exn + unit \<Rightarrow> unit action" where
  "await r w = (r, w)"

section \<open>Synchronous actions (actions.ts, userStoreActions)\<close>

definition setLoading :: "bool \<Rightarrow> world \<Rightarrow> world" where
  "setLoading loading w = w\<lparr>isLoading := loading\<rparr>"

definition setAuthenticating :: "bool \<Rightarrow> world \<Rightarrow> world" where
  "setAuthenticating authenticating w = w\<lparr>isAuthenticating := authenticating\<rparr>"

text \<open>\<open>self.error = error || undefined\<close>: \<open>null\<close> and the empty string both clear the field.\<close>

definition setError :: "jsstring option \<Rightarrow> world \<Rightarrow> world" where
  "setError e w = w\<lparr>error := (case e of None \<Rightarrow> None | Some m \<Rightarrow> if m = [] then None else Some m)\<rparr>"

definition clearError :: "world \<Rightarrow> world" where
  "clearError w = w\<lparr>error := None\<rparr>"

definition setSession :: "host \<Rightarrow> jsval \<Rightarrow> unit action" where
  "setSession h sessionData w =
     (if truthy sessionData then
        (case UserSession_create h
                (JObj (object_literal
                   [(js ''token'', field sessionData (js ''token'')),
                    (js ''expiresAt'', field sessionData (js ''expiresAt'')),
                    (js ''refreshToken'', field sessionData (js ''refreshToken''))])) of
           Inl e \<Rightarrow> (Inl e, w)
         | Inr s \<Rightarrow>
             (Inr (), w\<lparr>session := Some s,
                        storage := storage_set (js ''userSession'') (JSON_stringify h sessionData) (storage w)\<rparr>))
      else (Inr (), w\<lparr>session := None, storage := storage_delete (js ''userSession'') (storage w)\<rparr>))"

definition setCurrentUser :: "host \<Rightarrow> jsval \<Rightarrow> unit action" where
  "setCurrentUser h userData w =
     (if truthy userData then
        (case User_create h userData of
           Inl e \<Rightarrow> (Inl e, w)
         | Inr u \<Rightarrow>
             (Inr (), w\<lparr>currentUser := Some u,
                        storage := storage_set (js ''currentUser'') (JSON_stringify h userData) (storage w)\<rparr>))
      else (Inr (), w\<lparr>currentUser := None, storage := storage_delete (js ''currentUser'') (storage w)\<rparr>))"

text \<open>
  The three guarded assignments of \<open>setPreferences\<close> on existing preferences;
  \<open>if (v.k)\<close> takes \<open>undefined\<close> as false. An assignment to a property of a model
  instance is type-checked and throws on a value of the wrong type; what was assigned
  before stays assigned.
\<close>

definition assign_theme :: "host \<Rightarrow> jsval \<Rightarrow> UserPreferences \<Rightarrow> exn + UserPreferences" where
  "assign_theme h prefs p =
     (case field prefs (js ''theme'') of
        None \<Rightarrow> Inr p
      | Some v \<Rightarrow>
          (if truthy v then
             (case types_enumeration (Some v) of
                None \<Rightarrow> Inl (raise h (TypeCheck (js ''theme'') v))
              | Some t \<Rightarrow> Inr (p\<lparr>theme := t\<rparr>))
           else Inr p))"

definition assign_language :: "host \<Rightarrow> jsval \<Rightarrow> UserPreferences \<Rightarrow> exn + UserPreferences" where
  "assign_language h prefs p =
     (case field prefs (js ''language'') of
        None \<Rightarrow> Inr p
      | Some v \<Rightarrow>
          (if truthy v then
             (case types_string (Some v) of
                None \<Rightarrow> Inl (raise h (TypeCheck (js ''language'') v))
              | Some l \<Rightarrow> Inr (p\<lparr>language := l\<rparr>))
           else Inr p))"

definition assign_notifications :: "host \<Rightarrow> jsval \<Rightarrow> UserPreferences \<Rightarrow> exn + UserPreferences" where
  "assign_notifications h prefs p =
     (case field prefs (js ''notifications'') of
        None \<Rightarrow> Inr p
      | Some v \<Rightarrow>
          (case types_boolean (Some v) of
             None \<Rightarrow> Inl (raise h (TypeCheck (js ''notifications'') v))
           | Some n \<Rightarrow> Inr (p\<lparr>notifications := n\<rparr>)))"

definition persist_preferences :: "host \<Rightarrow> world \<Rightarrow> world" where
  "persist_preferences h w =
     (case preferences w of
        None \<Rightarrow> w
      | Some p \<Rightarrow>
          w\<lparr>storage := storage_set (js ''userPreferences'')
                          (JSON_stringify h (UserPreferences_snapshot p)) (storage w)\<rparr>)"

definition setPreferences :: "host \<Rightarrow> jsval \<Rightarrow> unit action" where
  "setPreferences h prefs w =
     (case preferences w of
        None \<Rightarrow>
          (case UserPreferences_create h prefs of
             Inl e \<Rightarrow> (Inl e, w)
           | Inr p \<Rightarrow> (Inr (), persist_preferences h (w\<lparr>preferences := Some p\<rparr>)))
      | Some p \<Rightarrow>
          (if prefs = JNull then (Inl (raise h (NullProperty (js ''theme''))), w)
           else
             (case assign_theme h prefs p of
                Inl e \<Rightarrow> (Inl e, w)
              | Inr p1 \<Rightarrow>
                  (case assign_language h prefs p1 of
                     Inl e \<Rightarrow> (Inl e, w\<lparr>preferences := Some p1\<rparr>)
                   | Inr p2 \<Rightarrow>
                       (case assign_notifications h prefs p2 of
                          Inl e \<Rightarrow> (Inl e, w\<lparr>preferences := Some p2\<rparr>)
                        | Inr p3 \<Rightarrow> (Inr (), persist_preferences h (w\<lparr>preferences := Some p3\<rparr>)))))))"

text \<open>\<open>updateProfile(updates)\<close>, with \<open>updates.name\<close> and \<open>updates.avatar\<close> as its arguments.\<close>

definition updateProfile :: "host \<Rightarrow> jsstring option \<Rightarrow> jsstring option \<Rightarrow> world \<Rightarrow> world" where
  "updateProfile h new_name new_avatar w =
     (case currentUser w of
        None \<Rightarrow> w
      | Some u \<Rightarrow>
          (let u1 = (case new_name of Some n \<Rightarrow> if n \<noteq> [] then u\<lparr>name := Some n\<rparr> else u | None \<Rightarrow> u);
               u2 = (case new_avatar of Some a \<Rightarrow> if a \<noteq> [] then u1\<lparr>avatar := Some a\<rparr> else u1 | None \<Rightarrow> u1)
           in w\<lparr>currentUser := Some u2,
                storage := storage_set (js ''currentUser'') (JSON_stringify h (User_snapshot u2)) (storage w)\<rparr>))"

section \<open>Flows (actions.ts, userStoreAsyncActions)\<close>

text \<open>What the flows return: \<open>{ success }\<close> or \<open>{ success, error }\<close>.\<close>

record result =
  success :: bool
  err :: "jsstring option"

definition message_or :: "exn \<Rightarrow> string \<Rightarrow> jsstring" where
  "message_or e fallback = (case e of Error m \<Rightarrow> m | Thrown _ \<Rightarrow> js fallback)"

definition fail_with :: "jsstring \<Rightarrow> result action" where
  "fail_with errorMessage = seq (run (setError (Some errorMessage))) (ok \<lparr>success = False, err = Some errorMessage\<rparr>)"

text \<open>
  \<open>login\<close>; \<open>t1\<close>, \<open>t2\<close>, \<open>t3\<close> are what the three calls of \<open>Date.now()\<close> return and
  \<open>r\<close> is the outcome of the awaited delay.
\<close>

definition login ::
  "host \<Rightarrow> int \<times> int \<times> int \<Rightarrow> exn + unit \<Rightarrow> jsstring \<Rightarrow> jsstring \<Rightarrow> result action" where
  "login h clock r email_arg password w =
     (case clock of (t1, t2, t3) \<Rightarrow>
        try_catch_finally
          (seq (await r)
             (if email_arg = js ''demo@example.com'' \<and> password = js ''password'' then
                (let mockUser = JObj
                       [(js ''id'', JStr (js ''1'')),
                        (js ''email'', JStr email_arg),
                        (js ''name'', JStr (js ''Demo User'')),
                        (js ''avatar'', JStr (js ''https://via.placeholder.com/150''))];
                     mockSession = JObj
                       [(js ''token'', JStr (js ''mock_jwt_token_'' @ Number_toString t1)),
                        (js ''expiresAt'', JStr (toISOString h (t2 + 24 * 60 * 60 * 1000))),
                        (js ''refreshToken'', JStr (js ''mock_refresh_token_'' @ Number_toString t3))];
                     defaultPreferences = JObj
                       [(js ''theme'', JStr (js ''system'')),
                        (js ''language'', JStr (js ''en'')),
                        (js ''notifications'', JBool True)]
                 in seq (setSession h mockSession)
                      (seq (setCurrentUser h mockUser)
                         (seq (setPreferences h defaultPreferences)
                            (ok \<lparr>success = True, err = None\<rparr>))))
              else fail_with (js ''Invalid email or password'')))
          (\<lambda>e. fail_with (message_or e ''Login failed''))
          (setAuthenticating False)
          (clearError (setAuthenticating True w)))"

definition logout :: "host \<Rightarrow> unit action" where
  "logout h w =
     try_catch_finally
       (seq (setSession h JNull) (seq (setCurrentUser h JNull) (run clearError)))
       (\<lambda>e. seq (setSession h JNull) (setCurrentUser h JNull))
       (setLoading False)
       (setLoading True w)"

text \<open>\<open>storage.getString(key)\<close> followed by \<open>if (saved) action(JSON.parse(saved))\<close>.\<close>

definition restore :: "host \<Rightarrow> string \<Rightarrow> (host \<Rightarrow> jsval \<Rightarrow> unit action) \<Rightarrow> unit action" where
  "restore h key action w =
     (case storage_getString (js key) (storage w) of
        None \<Rightarrow> (Inr (), w)
      | Some saved \<Rightarrow>
          (if saved = [] then (Inr (), w)
           else (case JSON_parse h saved of
                   Inl e \<Rightarrow> (Inl e, w)
                 | Inr data \<Rightarrow> action h data w)))"

text \<open>
  \<open>hydrate\<close>; the body of its \<open>try\<close> block comes first. The two \<open>if\<close>
  statements that end the block have empty bodies (the calls in them are commented out).
\<close>

definition hydrate_attempt :: "host \<Rightarrow> unit action" where
  "hydrate_attempt h =
     seq (restore h ''userSession'' setSession)
       (seq (restore h ''currentUser'' setCurrentUser)
          (restore h ''userPreferences'' setPreferences))"

definition hydrate :: "host \<Rightarrow> unit action" where
  "hydrate h w =
     try_catch_finally
       (hydrate_attempt h)
       (\<lambda>e. seq (setSession h JNull) (setCurrentUser h JNull))
       (setLoading False)
       (setLoading True w)"

text \<open>\<open>!self.session?.token\<close> and \<open>!self.session?.refreshToken\<close>.\<close>

definition no_token :: "world \<Rightarrow> bool" where
  "no_token w = (case session w of None \<Rightarrow> True | Some s \<Rightarrow> token s = [])"

definition no_refreshToken :: "world \<Rightarrow> bool" where
  "no_refreshToken w =
     (case session w of
        None \<Rightarrow> True
      | Some s \<Rightarrow> (case refreshToken s of None \<Rightarrow> True | Some t \<Rightarrow> t = []))"

definition refreshUser :: "host \<Rightarrow> exn + unit \<Rightarrow> unit action" where
  "refreshUser h r w =
     (if no_token w then (Inr (), w)
      else try_catch_finally
             (await r)
             (\<lambda>e. run (setError (Some (js ''Failed to refresh user data''))))
             (setLoading False)
             (setLoading True w))"

definition updateUserProfile ::
  "host \<Rightarrow> exn + unit \<Rightarrow> jsstring option \<Rightarrow> jsstring option \<Rightarrow> result action" where
  "updateUserProfile h r new_name new_avatar w =
     (if no_token w then fail_with (js ''Not authenticated'') w
      else try_catch_finally
             (seq (await r)
                (seq (run (updateProfile h new_name new_avatar))
                   (ok \<lparr>success = True, err = None\<rparr>)))
             (\<lambda>e. fail_with (message_or e ''Update failed''))
             (setLoading False)
             (setLoading True w))"

definition updatePreferences :: "host \<Rightarrow> exn + unit \<Rightarrow> jsval \<Rightarrow> result action" where
  "updatePreferences h r prefs w =
     try_catch_finally
       (seq (await r) (seq (setPreferences h prefs) (ok \<lparr>success = True, err = None\<rparr>)))
       (\<lambda>e. fail_with (message_or e ''Failed to update preferences''))
       (setLoading False)
       (setLoading True w)"

text \<open>
  \<open>refreshSession\<close>; the clock gives the two readings of \<open>Date.now()\<close>. The body of
  its \<open>try\<close> block comes first. Reading \<open>self.session.refreshToken\<close> throws when the
  session is gone.
\<close>

definition refresh_attempt :: "host \<Rightarrow> int \<times> int \<Rightarrow> exn + unit \<Rightarrow> result action" where
  "refresh_attempt h clock r =
     seq (await r)
       (\<lambda>w. case session w of
          None \<Rightarrow> (Inl (raise h (NullProperty (js ''refreshToken''))), w)
        | Some s \<Rightarrow>
            (let newSession = JObj (object_literal
                   [(js ''token'', Some (JStr (js ''refreshed_token_'' @ Number_toString (fst clock)))),
                    (js ''expiresAt'', Some (JStr (toISOString h (snd clock + 24 * 60 * 60 * 1000)))),
                    (js ''refreshToken'', map_option JStr (refreshToken s))])
             in seq (setSession h newSession) (ok \<lparr>success = True, err = None\<rparr>) w))"

definition refreshSession :: "host \<Rightarrow> int \<times> int \<Rightarrow> exn + unit \<Rightarrow> result action" where
  "refreshSession h clock r w =
     (if no_refreshToken w then fail_with (js ''No refresh token available'') w
      else try_catch
             (refresh_attempt h clock r)
             (\<lambda>e. let errorMessage = message_or e ''Session refresh failed''
                  in seq (run (setError (Some errorMessage)))
                       (seq (logout h) (ok \<lparr>success = False, err = Some errorMessage\<rparr>)))
             w)"

section \<open>Regular expressions\<close>

text \<open>
  The fragment of regular expressions the email pattern is written in. A character
  class is the predicate it denotes. \<open>RegExp_test\<close> is \<open>test\<close> for a pattern anchored
  at both ends (\<open>^\<close> and \<open>$\<close> without the multiline flag): the whole string has to
  match. It is computed with derivatives; \<open>lang\<close> says which strings a pattern denotes.
\<close>

datatype regex =
    RNone
  | REmpty
  | RChar "jschar \<Rightarrow> bool"
  | RAlt regex regex
  | RSeq regex regex
  | RStar regex

definition RPlus :: "regex \<Rightarrow> regex" where
  "RPlus r = RSeq r (RStar r)"

fun nullable :: "regex \<Rightarrow> bool" where
  "nullable RNone = False"
| "nullable REmpty = True"
| "nullable (RChar p) = False"
| "nullable (RAlt r s) = (nullable r \<or> nullable s)"
| "nullable (RSeq r s) = (nullable r \<and> nullable s)"
| "nullable (RStar r) = True"

fun deriv :: "jschar \<Rightarrow> regex \<Rightarrow> regex" where
  "deriv c RNone = RNone"
| "deriv c REmpty = RNone"
| "deriv c (RChar p) = (if p c then REmpty else RNone)"
| "deriv c (RAlt r s) = RAlt (deriv c r) (deriv c s)"
| "deriv c (RSeq r s) =
     (if nullable r then RAlt (RSeq (deriv c r) s) (deriv c s) else RSeq (deriv c r) s)"
| "deriv c (RStar r) = RSeq (deriv c r) (RStar r)"

fun RegExp_test :: "regex \<Rightarrow> jsstring \<Rightarrow> bool" where
  "RegExp_test r [] = nullable r"
| "RegExp_test r (c # cs) = RegExp_test (deriv c r) cs"

inductive_set star :: "jsstring set \<Rightarrow> jsstring set" for A :: "jsstring set" where
  star_nil: "[] \<in> star A"
| star_app: "u \<in> A \<Longrightarrow> v \<in> star A \<Longrightarrow> u @ v \<in> star A"

fun lang :: "regex \<Rightarrow> jsstring set" where
  "lang RNone = {}"
| "lang REmpty = {[]}"
| "lang (RChar p) = {[c] |c. p c}"
| "lang (RAlt r s) = lang r \<union> lang s"
| "lang (RSeq r s) = {u @ v |u v. u \<in> lang r \<and> v \<in> lang s}"
| "lang (RStar r) = star (lang r)"

text \<open>
  The class \<open>\s\<close>: the white space and line terminator code units of ECMAScript.
\<close>

definition WhiteSpace :: "jschar \<Rightarrow> bool" where
  "WhiteSpace c =
     (c = 0x0009 \<or> c = 0x000A \<or> c = 0x000B \<or> c = 0x000C \<or> c = 0x000D \<or> c = 0x0020
      \<or> c = 0x00A0 \<or> c = 0x1680 \<or> (0x2000 \<le> c \<and> c \<le> 0x200A)
      \<or> c = 0x2028 \<or> c = 0x2029 \<or> c = 0x202F \<or> c = 0x205F \<or> c = 0x3000 \<or> c = 0xFEFF)"

text \<open>\<open>[^\s@]\<close>, and the pattern \<open>/^[^\s@]+@[^\s@]+\.[^\s@]+$/\<close>.\<close>

definition not_space_at :: "jschar \<Rightarrow> bool" where
  "not_space_at c = (\<not> WhiteSpace c \<and> c \<noteq> 0x0040)"

definition email_pattern :: regex where
  "email_pattern =
     RSeq (RPlus (RChar not_space_at))
       (RSeq (RChar (\<lambda>c. c = 0x0040))
          (RSeq (RPlus (RChar not_space_at))
             (RSeq (RChar (\<lambda>c. c = 0x002E))
                (RPlus (RChar not_space_at)))))"

section \<open>Views (views.ts)\<close>

definition isAuthenticated :: "world \<Rightarrow> bool" where
  "isAuthenticated w = (\<not> no_token w \<and> currentUser w \<noteq> None)"

definition userEmail :: "world \<Rightarrow> jsstring" where
  "userEmail w = (case currentUser w of None \<Rightarrow> [] | Some u \<Rightarrow> email u)"

definition emailValidationError :: "world \<Rightarrow> jsstring" where
  "emailValidationError w =
     (let email_text = userEmail w in
      if email_text = [] \<or> length email_text = 0 then js ''Email can't be blank''
      else if length email_text < 6 then js ''Email must be at least 6 characters''
      else if \<not> RegExp_test email_pattern email_text then js ''Must be a valid email address''
      else [])"

text \<open>
  \<open>isSessionExpired\<close> at the time \<open>now\<close> (what \<open>new Date()\<close> reads). A comparison
  with an invalid date is false.
\<close>

definition isSessionExpired :: "host \<Rightarrow> int \<Rightarrow> world \<Rightarrow> bool" where
  "isSessionExpired h now w =
     (case session w of
        None \<Rightarrow> False
      | Some s \<Rightarrow>
          (case expiresAt s of
             None \<Rightarrow> False
           | Some e \<Rightarrow>
               (if e = [] then False
                else (case Date_parse h e of None \<Rightarrow> False | Some t \<Rightarrow> t < now))))"

section \<open>The API client (i3hostApi.ts)\<close>

text \<open>
  The state of the navigation container behind \<open>navigationRef\<close>: whether it is ready,
  and the index and route names of its stack.
\<close>

record navigation =
  isReady :: bool
  index :: nat
  routes :: "jsstring list"

text \<open>
  The client keeps the logout callback. A callback is a closure of type
  \<open>() => void\<close>: it acts on the rest of the application (\<open>'a\<close>) and on the navigation.
\<close>

record 'a I3HostApi =
  logoutCallback :: "('a \<times> navigation \<Rightarrow> 'a \<times> navigation) option"

record ApiResponse =
  status :: "int option"

definition setLogoutCallback ::
  "('a \<times> navigation \<Rightarrow> 'a \<times> navigation) \<Rightarrow> 'a I3HostApi \<Rightarrow> 'a I3HostApi" where
  "setLogoutCallback callback api = api\<lparr>logoutCallback := Some callback\<rparr>"

definition reset_to_Login :: "navigation \<Rightarrow> navigation" where
  "reset_to_Login n = n\<lparr>index := 0, routes := [js ''Login'']\<rparr>"

definition handle401Error :: "'a I3HostApi \<Rightarrow> 'a \<times> navigation \<Rightarrow> 'a \<times> navigation" where
  "handle401Error api st =
     (let st1 = (case logoutCallback api of None \<Rightarrow> st | Some callback \<Rightarrow> callback st)
      in if isReady (snd st1) then (fst st1, reset_to_Login (snd st1)) else st1)"

text \<open>The response transform that \<open>setupInterceptors\<close> registers.\<close>

definition responseTransform :: "'a I3HostApi \<Rightarrow> ApiResponse \<Rightarrow> 'a \<times> navigation \<Rightarrow> 'a \<times> navigation" where
  "responseTransform api response st =
     (if status response = Some 401 then handle401Error api st else st)"

section \<open>A host\<close>

text \<open>
  One implementation of the built-ins, on which the flows can be run on concrete inputs.
  Its JSON functions follow the JSON grammar and the serialisation rules of ECMAScript
  (escapes, lone surrogates, property order, repeated keys), except that a number
  literal is read as the exact rational it denotes, without rounding to a double, and
  is printed in plain decimal notation. Its date functions read and write the format of
  \<open>toISOString\<close> only.
\<close>

subsection \<open>Reading JSON text\<close>

definition is_digit :: "jschar \<Rightarrow> bool" where
  "is_digit c = (0x30 \<le> c \<and> c \<le> 0x39)"

definition digit_value :: "jschar \<Rightarrow> int" where
  "digit_value c = uint c - 48"

definition number_of :: "jsstring \<Rightarrow> int" where
  "number_of ds = foldl (\<lambda>n d. 10 * n + digit_value d) 0 ds"

definition is_json_space :: "jschar \<Rightarrow> bool" where
  "is_json_space c = (c = 0x20 \<or> c = 0x09 \<or> c = 0x0A \<or> c = 0x0D)"

definition skip_space :: "jsstring \<Rightarrow> jsstring" where
  "skip_space s = dropWhile is_json_space s"

definition hex_value :: "jschar \<Rightarrow> int option" where
  "hex_value c =
     (if 0x30 \<le> c \<and> c \<le> 0x39 then Some (uint c - 0x30)
      else if 0x41 \<le> c \<and> c \<le> 0x46 then Some (uint c - 0x41 + 10)
      else if 0x61 \<le> c \<and> c \<le> 0x66 then Some (uint c - 0x61 + 10)
      else None)"

text \<open>The character a single-letter escape stands for.\<close>

definition unescape :: "jschar \<Rightarrow> jschar option" where
  "unescape e =
     (if e = 0x22 \<or> e = 0x5C \<or> e = 0x2F then Some e
      else if e = 0x62 then Some 0x08
      else if e = 0x66 then Some 0x0C
      else if e = 0x6E then Some 0x0A
      else if e = 0x72 then Some 0x0D
      else if e = 0x74 then Some 0x09
      else None)"

definition cons_fst :: "'a \<Rightarrow> ('a list \<times> 'b) option \<Rightarrow> ('a list \<times> 'b) option" where
  "cons_fst x r = (case r of None \<Rightarrow> None | Some (xs, rest) \<Rightarrow> Some (x # xs, rest))"

text \<open>The characters of a string literal after its opening quote, and what follows the closing one.\<close>

fun read_chars :: "jsstring \<Rightarrow> (jsstring \<times> jsstring) option" where
  "read_chars [] = None"
| "read_chars (c # cs) =
     (if c = 0x22 then Some ([], cs)
      else if c = 0x5C then
        (case cs of
           [] \<Rightarrow> None
         | e # cs1 \<Rightarrow>
             (if e = 0x75 then
                (case cs1 of
                   a # b # c' # d # cs2 \<Rightarrow>
                     (case (hex_value a, hex_value b, hex_value c', hex_value d) of
                        (Some x3, Some x2, Some x1, Some x0) \<Rightarrow>
                          cons_fst (of_int (((x3 * 16 + x2) * 16 + x1) * 16 + x0)) (read_chars cs2)
                      | _ \<Rightarrow> None)
                 | _ \<Rightarrow> None)
              else (case unescape e of
                      None \<Rightarrow> None
                    | Some x \<Rightarrow> cons_fst x (read_chars cs1))))
      else if c < 0x20 then None
      else cons_fst c (read_chars cs))"

text \<open>A number literal: sign, integer part, fraction, exponent.\<close>

definition read_digits :: "jsstring \<Rightarrow> (jsstring \<times> jsstring) option" where
  "read_digits s =
     (let ds = takeWhile is_digit s in if ds = [] then None else Some (ds, dropWhile is_digit s))"

definition read_int_part :: "jsstring \<Rightarrow> (jsstring \<times> jsstring) option" where
  "read_int_part s =
     (case read_digits s of
        None \<Rightarrow> None
      | Some (ds, rest) \<Rightarrow> if hd ds = 0x30 \<and> length ds > 1 then Some ([0x30], tl s) else Some (ds, rest))"

definition read_fraction :: "jsstring \<Rightarrow> (jsstring \<times> jsstring) option" where
  "read_fraction s =
     (case s of
        c # cs \<Rightarrow> if c = 0x2E then read_digits cs else Some ([], s)
      | [] \<Rightarrow> Some ([], s))"

definition read_exponent :: "jsstring \<Rightarrow> (int \<times> jsstring) option" where
  "read_exponent s =
     (case s of
        c # cs \<Rightarrow>
          (if c = 0x65 \<or> c = 0x45 then
             (case cs of
                sg # cs1 \<Rightarrow>
                  (if sg = 0x2D then map_option (\<lambda>(ds, rest). (- number_of ds, rest)) (read_digits cs1)
                   else if sg = 0x2B then map_option (\<lambda>(ds, rest). (number_of ds, rest)) (read_digits cs1)
                   else map_option (\<lambda>(ds, rest). (number_of ds, rest)) (read_digits cs))
              | [] \<Rightarrow> None)
           else Some (0, s))
      | [] \<Rightarrow> Some (0, s))"

definition read_number :: "jsstring \<Rightarrow> (rat \<times> jsstring) option" where
  "read_number s =
     (let negative = (s \<noteq> [] \<and> hd s = 0x2D);
          s1 = (if negative then tl s else s)
      in case read_int_part s1 of
           None \<Rightarrow> None
         | Some (ip, s2) \<Rightarrow>
             (case read_fraction s2 of
                None \<Rightarrow> None
              | Some (fp, s3) \<Rightarrow>
                  (case read_exponent s3 of
                     None \<Rightarrow> None
                   | Some (ex, s4) \<Rightarrow>
                       (let mantissa = of_int (number_of ip) + of_int (number_of fp) / 10 ^ length fp;
                            scaled = (if ex < 0 then mantissa / 10 ^ nat (- ex) else mantissa * 10 ^ nat ex)
                        in Some (if negative then - scaled else scaled, s4)))))"

text \<open>
  Defining a property while an object is read: a repeated key keeps its place and takes
  the new value; an array index goes among the indices, in ascending order, before all
  other keys; any other key goes to the end.
\<close>

definition array_index :: "jsstring \<Rightarrow> int option" where
  "array_index k =
     (if k \<noteq> [] \<and> list_all is_digit k \<and> (hd k \<noteq> 0x30 \<or> length k = 1) \<and> number_of k \<le> 4294967294
      then Some (number_of k) else None)"

fun insert_index :: "int \<Rightarrow> jsstring \<times> jsval \<Rightarrow> (jsstring \<times> jsval) list \<Rightarrow> (jsstring \<times> jsval) list" where
  "insert_index i kv [] = [kv]"
| "insert_index i kv (x # xs) =
     (case array_index (fst x) of
        None \<Rightarrow> kv # x # xs
      | Some j \<Rightarrow> if i < j then kv # x # xs else x # insert_index i kv xs)"

definition define_property :: "(jsstring \<times> jsval) list \<Rightarrow> jsstring \<Rightarrow> jsval \<Rightarrow> (jsstring \<times> jsval) list" where
  "define_property kvs k v =
     (if k \<in> fst ` set kvs then map (\<lambda>kv. if fst kv = k then (k, v) else kv) kvs
      else (case array_index k of None \<Rightarrow> kvs @ [(k, v)] | Some i \<Rightarrow> insert_index i (k, v) kvs))"

definition starts_with :: "string \<Rightarrow> jsstring \<Rightarrow> bool" where
  "starts_with lit s = (take (length lit) s = js lit)"

text \<open>
  The recursive descent; the first argument bounds the depth of the calls and is large
  enough when it starts at twice the length of the text.
\<close>

fun read_value :: "nat \<Rightarrow> jsstring \<Rightarrow> (jsval \<times> jsstring) option"
  and read_elements :: "nat \<Rightarrow> jsval list \<Rightarrow> jsstring \<Rightarrow> (jsval \<times> jsstring) option"
  and read_members :: "nat \<Rightarrow> (jsstring \<times> jsval) list \<Rightarrow> jsstring \<Rightarrow> (jsval \<times> jsstring) option" where
  "read_value 0 s = None"
| "read_value (Suc n) s =
     (case skip_space s of
        [] \<Rightarrow> None
      | c # cs \<Rightarrow>
          (if c = 0x7B then
             (case skip_space cs of
                [] \<Rightarrow> None
              | d # ds \<Rightarrow> if d = 0x7D then Some (JObj [], ds) else read_members n [] cs)
           else if c = 0x5B then
             (case skip_space cs of
                [] \<Rightarrow> None
              | d # ds \<Rightarrow> if d = 0x5D then Some (JArr [], ds) else read_elements n [] cs)
           else if c = 0x22 then map_option (\<lambda>(x, rest). (JStr x, rest)) (read_chars cs)
           else if starts_with ''true'' (c # cs) then Some (JBool True, drop 4 (c # cs))
           else if starts_with ''false'' (c # cs) then Some (JBool False, drop 5 (c # cs))
           else if starts_with ''null'' (c # cs) then Some (JNull, drop 4 (c # cs))
           else map_option (\<lambda>(q, rest). (JNum q, rest)) (read_number (c # cs))))"
| "read_elements 0 acc s = None"
| "read_elements (Suc n) acc s =
     (case read_value n s of
        None \<Rightarrow> None
      | Some (v, rest) \<Rightarrow>
          (case skip_space rest of
             [] \<Rightarrow> None
           | c # cs \<Rightarrow>
               if c = 0x2C then read_elements n (acc @ [v]) cs
               else if c = 0x5D then Some (JArr (acc @ [v]), cs)
               else None))"
| "read_members 0 acc s = None"
| "read_members (Suc n) acc s =
     (case skip_space s of
        [] \<Rightarrow> None
      | q # s1 \<Rightarrow>
          (if q \<noteq> 0x22 then None
           else
             (case read_chars s1 of
                None \<Rightarrow> None
              | Some (k, s2) \<Rightarrow>
                  (case skip_space s2 of
                     [] \<Rightarrow> None
                   | colon # s3 \<Rightarrow>
                       (if colon \<noteq> 0x3A then None
                        else
                          (case read_value n s3 of
                             None \<Rightarrow> None
                           | Some (v, s4) \<Rightarrow>
                               (case skip_space s4 of
                                  [] \<Rightarrow> None
                                | c # cs \<Rightarrow>
                                    if c = 0x2C then read_members n (define_property acc k v) cs
                                    else if c = 0x7D then Some (JObj (define_property acc k v), cs)
                                    else None)))))))"

definition parse_json :: "jsstring \<Rightarrow> exn + jsval" where
  "parse_json s =
     (case read_value (2 * length s + 2) s of
        None \<Rightarrow> Inl (Error (js ''Unexpected token in JSON''))
      | Some (v, rest) \<Rightarrow>
          if skip_space rest = [] then Inr v else Inl (Error (js ''Unexpected token in JSON'')))"

subsection \<open>Writing JSON text\<close>

definition hex_digit :: "int \<Rightarrow> jschar" where
  "hex_digit n = (if n < 10 then of_int (48 + n) else of_int (87 + n))"

definition unicode_escape :: "jschar \<Rightarrow> jsstring" where
  "unicode_escape c =
     (let n = uint c
      in [0x5C, 0x75, hex_digit (n div 4096), hex_digit (n div 256 mod 16),
          hex_digit (n div 16 mod 16), hex_digit (n mod 16)])"

definition escape :: "jschar \<Rightarrow> jsstring" where
  "escape c =
     (if c = 0x22 then [0x5C, 0x22]
      else if c = 0x5C then [0x5C, 0x5C]
      else if c = 0x08 then [0x5C, 0x62]
      else if c = 0x0C then [0x5C, 0x66]
      else if c = 0x0A then [0x5C, 0x6E]
      else if c = 0x0D then [0x5C, 0x72]
      else if c = 0x09 then [0x5C, 0x74]
      else if c < 0x20 then unicode_escape c
      else [c])"

definition high_surrogate :: "jschar \<Rightarrow> bool" where
  "high_surrogate c = (0xD800 \<le> c \<and> c \<le> 0xDBFF)"

definition low_surrogate :: "jschar \<Rightarrow> bool" where
  "low_surrogate c = (0xDC00 \<le> c \<and> c \<le> 0xDFFF)"

fun quote_chars :: "jsstring \<Rightarrow> jsstring" where
  "quote_chars [] = []"
| "quote_chars [c] =
     (if high_surrogate c \<or> low_surrogate c then unicode_escape c else escape c)"
| "quote_chars (c # d # cs) =
     (if high_surrogate c then
        (if low_surrogate d then c # d # quote_chars cs else unicode_escape c @ quote_chars (d # cs))
      else if low_surrogate c then unicode_escape c @ quote_chars (d # cs)
      else escape c @ quote_chars (d # cs))"

definition quote :: "jsstring \<Rightarrow> jsstring" where
  "quote s = [0x22] @ quote_chars s @ [0x22]"

fun fraction_digits :: "nat \<Rightarrow> int \<Rightarrow> int \<Rightarrow> jsstring" where
  "fraction_digits 0 r d = []"
| "fraction_digits (Suc fuel) r d =
     (if r = 0 then [] else of_int (48 + 10 * r div d) # fraction_digits fuel (10 * r mod d) d)"

definition number_text :: "rat \<Rightarrow> jsstring" where
  "number_text q =
     (case quotient_of q of (n, d) \<Rightarrow>
        (let a = \<bar>n\<bar>; frac = fraction_digits 20 (a mod d) d
         in (if n < 0 then js ''-'' else []) @ digits (a div d) @ (if frac = [] then [] else js ''.'' @ frac)))"

fun join :: "jsstring list \<Rightarrow> jsstring" where
  "join [] = []"
| "join [x] = x"
| "join (x # y # ys) = x @ js '','' @ join (y # ys)"

fun write_json :: "jsval \<Rightarrow> jsstring" where
  "write_json JNull = js ''null''"
| "write_json (JBool b) = (if b then js ''true'' else js ''false'')"
| "write_json (JNum q) = number_text q"
| "write_json (JInfinity _) = js ''null''"
| "write_json (JStr s) = quote s"
| "write_json (JArr vs) = js ''['' @ join (map write_json vs) @ js '']''"
| "write_json (JObj kvs) = js ''{'' @ join (map (\<lambda>kv. quote (fst kv) @ js '':'' @ write_json (snd kv)) kvs) @ js ''}''"

subsection \<open>Dates\<close>

definition pad :: "nat \<Rightarrow> int \<Rightarrow> jsstring" where
  "pad width n = replicate (width - length (digits n)) 0x30 @ digits n"

text \<open>The civil date of a day number counted from 1970-01-01, and back.\<close>

definition civil_from_days :: "int \<Rightarrow> int \<times> int \<times> int" where
  "civil_from_days z0 =
     (let z = z0 + 719468;
          era = z div 146097;
          doe = z - era * 146097;
          yoe = (doe - doe div 1460 + doe div 36524 - doe div 146096) div 365;
          doy = doe - (365 * yoe + yoe div 4 - yoe div 100);
          mp = (5 * doy + 2) div 153;
          d = doy - (153 * mp + 2) div 5 + 1;
          m = (if mp < 10 then mp + 3 else mp - 9);
          y = yoe + era * 400 + (if m \<le> 2 then 1 else 0)
      in (y, m, d))"

definition days_from_civil :: "int \<Rightarrow> int \<Rightarrow> int \<Rightarrow> int" where
  "days_from_civil y0 m d =
     (let y = (if m \<le> 2 then y0 - 1 else y0);
          era = y div 400;
          yoe = y - era * 400;
          doy = (153 * (if m > 2 then m - 3 else m + 9) + 2) div 5 + d - 1;
          doe = yoe * 365 + yoe div 4 - yoe div 100 + doy
      in era * 146097 + doe - 719468)"

definition days_in_month :: "int \<Rightarrow> int \<Rightarrow> int" where
  "days_in_month y m =
     (if m = 2 then (if y mod 4 = 0 \<and> (y mod 100 \<noteq> 0 \<or> y mod 400 = 0) then 29 else 28)
      else if m = 4 \<or> m = 6 \<or> m = 9 \<or> m = 11 then 30 else 31)"

definition iso_string :: "int \<Rightarrow> jsstring" where
  "iso_string t =
     (let ms = t mod 86400000
      in case civil_from_days (t div 86400000) of (y, m, d) \<Rightarrow>
           (if 0 \<le> y \<and> y \<le> 9999 then pad 4 y
            else (if y < 0 then js ''-'' else js ''+'') @ pad 6 \<bar>y\<bar>)
           @ js ''-'' @ pad 2 m @ js ''-'' @ pad 2 d @ js ''T''
           @ pad 2 (ms div 3600000) @ js '':'' @ pad 2 (ms div 60000 mod 60) @ js '':''
           @ pad 2 (ms div 1000 mod 60) @ js ''.'' @ pad 3 (ms mod 1000) @ js ''Z'')"

definition digits_at :: "nat \<Rightarrow> nat \<Rightarrow> jsstring \<Rightarrow> int option" where
  "digits_at i n s =
     (let ds = take n (drop i s) in if length ds = n \<and> list_all is_digit ds then Some (number_of ds) else None)"

definition parse_iso :: "jsstring \<Rightarrow> int option" where
  "parse_iso s =
     (if length s = 24 \<and> s ! 4 = 0x2D \<and> s ! 7 = 0x2D \<and> s ! 10 = 0x54 \<and> s ! 13 = 0x3A
         \<and> s ! 16 = 0x3A \<and> s ! 19 = 0x2E \<and> s ! 23 = 0x5A then
        (case (digits_at 0 4 s, digits_at 5 2 s, digits_at 8 2 s, digits_at 11 2 s,
               digits_at 14 2 s, digits_at 17 2 s, digits_at 20 3 s) of
           (Some y, Some m, Some d, Some hh, Some mi, Some ss, Some ms) \<Rightarrow>
             (if 1 \<le> m \<and> m \<le> 12 \<and> 1 \<le> d \<and> d \<le> days_in_month y m
                 \<and> hh \<le> 23 \<and> mi \<le> 59 \<and> ss \<le> 59
              then Some (days_from_civil y m d * 86400000 + ((hh * 60 + mi) * 60 + ss) * 1000 + ms)
              else None)
         | _ \<Rightarrow> None)
      else None)"

subsection \<open>The host record\<close>

definition message_of :: "fault \<Rightarrow> jsstring" where
  "message_of f =
     (case f of
        TypeCheck ty v \<Rightarrow> js ''[mobx-state-tree] Error while converting '' @ write_json v @ js '' to '' @ ty
      | NullProperty k \<Rightarrow> js ''Cannot read properties of null (reading '' @ k @ js '')'')"

definition plain_host :: host where
  "plain_host =
     \<lparr>JSON_parse = parse_json, JSON_stringify = write_json, Date_parse = parse_iso,
      toISOString = iso_string, fault_message = message_of\<rparr>"


section \<open>Persisting and reading back\<close>

text \<open>
  \<open>setSession(s)\<close>, \<open>setCurrentUser(u)\<close> and \<open>setPreferences(p)\<close> in a row, for a
  session, a user and preferences given as plain objects with the models' properties.
\<close>

definition persist_all :: "host \<Rightarrow> UserSession \<Rightarrow> User \<Rightarrow> UserPreferences \<Rightarrow> unit action" where
  "persist_all h s u p =
     seq (setSession h (UserSession_snapshot s))
       (seq (setCurrentUser h (User_snapshot u))
          (setPreferences h (UserPreferences_snapshot p)))"

text \<open>
  What \<open>setPreferences(p)\<close> leaves in the store for a complete \<open>p\<close>: \<open>p\<close> itself on
  a store without preferences; otherwise the old preferences with the theme and the
  notifications of \<open>p\<close>, and with the language of \<open>p\<close> unless that is the empty string.
\<close>

definition merged_preferences :: "UserPreferences option \<Rightarrow> UserPreferences \<Rightarrow> UserPreferences" where
  "merged_preferences old p =
     (case old of
        None \<Rightarrow> p
      | Some q \<Rightarrow>
          q\<lparr>theme := theme p,
             language := (if language p = [] then language q else language p),
             notifications := notifications p\<rparr>)"

text \<open>
  The host reads a value back from its own serialisation (which, for an object, is never
  the empty string).
\<close>

definition reads_back :: "host \<Rightarrow> jsval \<Rightarrow> bool" where
  "reads_back h v = (JSON_stringify h v \<noteq> [] \<and> JSON_parse h (JSON_stringify h v) = Inr v)"

section \<open>Stores that differ in their storage only\<close>

text \<open>The two states hold the same store: all fields of the UserStore model agree.\<close>

definition same_store :: "world \<Rightarrow> world \<Rightarrow> bool" where
  "same_store w w' =
     (currentUser w' = currentUser w \<and> session w' = session w \<and> preferences w' = preferences w
      \<and> isLoading w' = isLoading w \<and> isAuthenticating w' = isAuthenticating w
      \<and> error w' = error w)"

text \<open>
  The two states hold the same store, and their storages agree except that under the key
  \<open>k\<close> the first may hold the empty string where the second holds nothing.
\<close>

definition empty_for_absent :: "jsstring \<Rightarrow> world \<Rightarrow> world \<Rightarrow> bool" where
  "empty_for_absent k w w' =
     (same_store w w'
      \<and> (\<forall>j. j \<noteq> k \<longrightarrow> storage w' j = storage w j)
      \<and> (storage w' k = storage w k \<or> (storage w k = Some [] \<and> storage w' k = None)))"

section \<open>Example states\<close>

text \<open>
  What the demo login stores at clock reading 1700000000000 (2023-11-14T22:13:20.000Z),
  and a store that holds it.
\<close>

definition demo_user :: User where
  "demo_user =
     \<lparr>user_id = js ''1'', email = js ''demo@example.com'', name = Some (js ''Demo User''),
      avatar = Some (js ''https://via.placeholder.com/150'')\<rparr>"

definition demo_session :: UserSession where
  "demo_session =
     \<lparr>token = js ''mock_jwt_token_1700000000000'',
      expiresAt = Some (js ''2023-11-15T22:13:20.000Z''),
      refreshToken = Some (js ''mock_refresh_token_1700000000000'')\<rparr>"

definition default_preferences :: UserPreferences where
  "default_preferences = \<lparr>theme = System, language = js ''en'', notifications = True\<rparr>"

definition signed_in :: world where
  "signed_in =
     (fresh Map.empty)\<lparr>currentUser := Some demo_user, session := Some demo_session,
                       preferences := Some default_preferences\<rparr>"

text \<open>A store whose current user has a given email address.\<close>

definition with_email :: "jsstring \<Rightarrow> world" where
  "with_email e =
     (fresh Map.empty)\<lparr>currentUser := Some \<lparr>user_id = js ''1'', email = e, name = None, avatar = None\<rparr>\<rparr>"

text \<open>Preferences with and without a language.\<close>

definition dark_vietnamese :: UserPreferences where
  "dark_vietnamese = \<lparr>theme = Dark, language = js ''vi'', notifications = False\<rparr>"

definition dark_unnamed :: UserPreferences where
  "dark_unnamed = \<lparr>theme = Dark, language = [], notifications = False\<rparr>"

text \<open>
  A storage whose session blob is the empty string while its user blob is intact, and
  one whose session blob is cut off and whose preferences blob is the empty string.
\<close>

definition empty_session_blob :: key_value_storage where
  "empty_session_blob =
     [js ''userSession'' \<mapsto> [], js ''currentUser'' \<mapsto> write_json (User_snapshot demo_user)]"

definition truncated_session_blob :: key_value_storage where
  "truncated_session_blob =
     [js ''userSession'' \<mapsto> take 20 (write_json (UserSession_snapshot demo_session)),
      js ''currentUser'' \<mapsto> write_json (User_snapshot demo_user),
      js ''userPreferences'' \<mapsto> []]"

text \<open>An application state for the API client: a count of logouts and the navigation.\<close>

definition count_logout :: "nat \<times> navigation \<Rightarrow> nat \<times> navigation" where
  "count_logout st = (Suc (fst st), snd st)"

definition on_profile :: navigation where
  "on_profile = \<lparr>isReady = True, index = 1, routes = [js ''Welcome'', js ''Profile'']\<rparr>"

section \<open>Evaluating the flows\<close>

lemmas flow_defs =
  try_catch_finally_def try_catch_def seq_def andThen_def run_def ok_def await_def
  fail_with_def

lemmas setter_defs =
  setSession_def setCurrentUser_def setPreferences_def persist_preferences_def
  UserSession_create_def User_create_def UserPreferences_create_def
  types_optional_def types_enumeration_def
  setLoading_def setAuthenticating_def setError_def clearError_def
  assign_theme_def assign_language_def assign_notifications_def

lemma setLoading_frame:
  "currentUser (setLoading b w) = currentUser w" "session (setLoading b w) = session w"
  "storage (setLoading b w) = storage w" "error (setLoading b w) = error w"
  "preferences (setLoading b w) = preferences w"
  by (simp_all add: setLoading_def)

lemma plain_host_fields:
  "JSON_parse plain_host = parse_json" "JSON_stringify plain_host = write_json"
  "Date_parse plain_host = parse_iso" "toISOString plain_host = iso_string"
  by (simp_all add: plain_host_def)

lemma setSession_null:
  "setSession h JNull w =
     (Inr (), w\<lparr>session := None, storage := (storage w)(js ''userSession'' := None)\<rparr>)"
  by (simp add: setSession_def)

lemma setCurrentUser_null:
  "setCurrentUser h JNull w =
     (Inr (), w\<lparr>currentUser := None, storage := (storage w)(js ''currentUser'' := None)\<rparr>)"
  by (simp add: setCurrentUser_def)

lemma clear_session_and_user:
  "seq (setSession h JNull) (setCurrentUser h JNull) w =
     (Inr (), w\<lparr>session := None, currentUser := None,
                storage := (storage w)(js ''userSession'' := None, js ''currentUser'' := None)\<rparr>)"
  by (simp add: seq_def andThen_def setSession_null setCurrentUser_null)

lemma logout_eq:
  "logout h w =
     (Inr (), w\<lparr>currentUser := None, session := None, isLoading := False, error := None,
                storage := (storage w)(js ''userSession'' := None, js ''currentUser'' := None)\<rparr>)"
  by (simp add: logout_def flow_defs setSession_null setCurrentUser_null clearError_def
      setLoading_def)

section \<open>Logout\<close>

text \<open>
  C2. For every store state, after the logout flow completes, \<open>currentUser\<close> and
  \<open>session\<close> are cleared (undefined), while the \<open>preferences\<close> field holds exactly
  the value it held before logout was invoked. The flow returns normally.
\<close>

theorem logout_clears_session_and_user_keeps_preferences:
  "fst (logout h w) = Inr ()
   \<and> currentUser (snd (logout h w)) = None
   \<and> session (snd (logout h w)) = None
   \<and> preferences (snd (logout h w)) = preferences w"
  by (simp add: logout_eq)

section \<open>Session refresh\<close>

lemma refreshSession_failed:
  assumes "\<not> no_refreshToken w" and "refresh_attempt h clock r w = (Inl e, w1)"
  shows "refreshSession h clock r w =
           (Inr \<lparr>success = False, err = Some (message_or e ''Session refresh failed'')\<rparr>,
            snd (logout h (setError (Some (message_or e ''Session refresh failed'')) w1)))"
  using assms
  by (simp add: refreshSession_def try_catch_def seq_def andThen_def run_def ok_def logout_eq Let_def)

lemma refresh_attempt_rejected: "refresh_attempt h clock (Inl e) w = (Inl e, w)"
  by (simp add: refresh_attempt_def seq_def andThen_def await_def)

lemma signed_in_has_refreshToken: "\<not> no_refreshToken signed_in"
  by (simp add: no_refreshToken_def signed_in_def demo_session_def js_def)

text \<open>
  C6. For every store state in which a refresh token is present, if the refresh attempt
  of \<open>refreshSession\<close> fails (its try block throws \<open>e\<close>), then the logout flow runs
  before \<open>refreshSession\<close> returns: the state it ends in is the one logout leaves,
  started after the error was recorded, so \<open>session\<close> and \<open>currentUser\<close> are cleared,
  and the flow returns \<open>{success: false}\<close> with the error message.
\<close>

theorem refreshSession_failure_cascades_into_logout:
  assumes "\<not> no_refreshToken w" and "fst (refresh_attempt h clock r w) = Inl e"
  shows "fst (refreshSession h clock r w)
           = Inr \<lparr>success = False, err = Some (message_or e ''Session refresh failed'')\<rparr>
         \<and> snd (refreshSession h clock r w)
             = snd (logout h (setError (Some (message_or e ''Session refresh failed''))
                      (snd (refresh_attempt h clock r w))))
         \<and> session (snd (refreshSession h clock r w)) = None
         \<and> currentUser (snd (refreshSession h clock r w)) = None"
proof -
  obtain w1 where attempt: "refresh_attempt h clock r w = (Inl e, w1)"
    using assms(2) by (cases "refresh_attempt h clock r w") simp
  show ?thesis
    by (simp add: refreshSession_failed [OF assms(1) attempt] attempt logout_eq)
qed

theorem refreshSession_failure_cascades_into_logout_witness:
  "\<not> no_refreshToken signed_in
   \<and> fst (refresh_attempt plain_host (0, 0) (Inl (Error (js ''Network request failed''))) signed_in)
       = Inl (Error (js ''Network request failed''))
   \<and> fst (refreshSession plain_host (0, 0) (Inl (Error (js ''Network request failed''))) signed_in)
       = Inr \<lparr>success = False, err = Some (js ''Network request failed'')\<rparr>
   \<and> session (snd (refreshSession plain_host (0, 0) (Inl (Error (js ''Network request failed''))) signed_in)) = None
   \<and> currentUser (snd (refreshSession plain_host (0, 0) (Inl (Error (js ''Network request failed''))) signed_in)) = None"
  using refreshSession_failure_cascades_into_logout
          [of signed_in plain_host "(0, 0)" "Inl (Error (js ''Network request failed''))"
              "Error (js ''Network request failed'')"]
  by (simp add: signed_in_has_refreshToken refresh_attempt_rejected message_or_def logout_eq)

text \<open>
  C10. For every store state with a refresh token present, if the refresh attempt fails,
  the store's \<open>error\<close> field is undefined when \<open>refreshSession\<close> returns (the cascaded
  logout clears the message that \<open>refreshSession\<close> had just set), although the result
  \<open>{success: false, error}\<close> still carries the message.
\<close>

theorem refreshSession_failure_leaves_no_error:
  assumes "\<not> no_refreshToken w" and "fst (refresh_attempt h clock r w) = Inl e"
  shows "error (snd (refreshSession h clock r w)) = None
         \<and> fst (refreshSession h clock r w)
             = Inr \<lparr>success = False, err = Some (message_or e ''Session refresh failed'')\<rparr>"
proof -
  obtain w1 where attempt: "refresh_attempt h clock r w = (Inl e, w1)"
    using assms(2) by (cases "refresh_attempt h clock r w") simp
  show ?thesis
    by (simp add: refreshSession_failed [OF assms(1) attempt] logout_eq)
qed

theorem refreshSession_failure_leaves_no_error_witness:
  "\<not> no_refreshToken signed_in
   \<and> fst (refresh_attempt plain_host (0, 0) (Inl (Thrown JNull)) signed_in) = Inl (Thrown JNull)
   \<and> error (snd (refreshSession plain_host (0, 0) (Inl (Thrown JNull)) signed_in)) = None
   \<and> fst (refreshSession plain_host (0, 0) (Inl (Thrown JNull)) signed_in)
       = Inr \<lparr>success = False, err = Some (js ''Session refresh failed'')\<rparr>"
  using refreshSession_failure_leaves_no_error
          [of signed_in plain_host "(0, 0)" "Inl (Thrown JNull)" "Thrown JNull"]
  by (simp add: signed_in_has_refreshToken refresh_attempt_rejected message_or_def)

section \<open>Session expiry\<close>

text \<open>
  C5. For every store state and every current time, \<open>isSessionExpired\<close> is true if and
  only if the session has a stored expiry timestamp and that timestamp, as a date, lies
  strictly before the current time; in particular it is false whenever no expiry
  timestamp is stored. (The empty string denotes no date, as for every implementation of
  \<open>Date\<close>.)
\<close>

theorem isSessionExpired_iff_expiry_in_the_past:
  assumes "Date_parse h [] = None"
  shows "(isSessionExpired h now w \<longleftrightarrow>
            (\<exists>s e t. session w = Some s \<and> expiresAt s = Some e \<and> Date_parse h e = Some t \<and> t < now))
         \<and> ((session w = None \<or> (\<exists>s. session w = Some s \<and> expiresAt s = None))
              \<longrightarrow> \<not> isSessionExpired h now w)"
  using assms
  by (auto simp add: isSessionExpired_def split: option.splits)

theorem isSessionExpired_iff_expiry_in_the_past_witness:
  "Date_parse plain_host [] = None
   \<and> isSessionExpired plain_host 1700086400001 signed_in
   \<and> (\<exists>s e t. session signed_in = Some s \<and> expiresAt s = Some e
         \<and> Date_parse plain_host e = Some t \<and> t < 1700086400001)
   \<and> \<not> isSessionExpired plain_host 1700086400000 signed_in
   \<and> \<not> isSessionExpired plain_host 1700086400001 (fresh Map.empty)"
proof -
  have empty: "Date_parse plain_host [] = None"
    by (simp add: plain_host_def parse_iso_def)
  have expiry: "parse_iso (js ''2023-11-15T22:13:20.000Z'') = Some 1700086400000"
    by code_simp
  have stored: "session signed_in = Some demo_session"
    "expiresAt demo_session = Some (js ''2023-11-15T22:13:20.000Z'')"
    "Date_parse plain_host (js ''2023-11-15T22:13:20.000Z'') = Some 1700086400000"
    by (simp_all add: signed_in_def demo_session_def plain_host_def expiry)
  have past: "\<exists>s e t. session signed_in = Some s \<and> expiresAt s = Some e
         \<and> Date_parse plain_host e = Some t \<and> t < 1700086400001"
    using stored by auto
  have not_before: "\<not> (\<exists>s e t. session signed_in = Some s \<and> expiresAt s = Some e
         \<and> Date_parse plain_host e = Some t \<and> t < 1700086400000)"
    using stored by auto
  show ?thesis
    using isSessionExpired_iff_expiry_in_the_past [OF empty, of 1700086400001 signed_in]
      isSessionExpired_iff_expiry_in_the_past [OF empty, of 1700086400000 signed_in]
      isSessionExpired_iff_expiry_in_the_past [OF empty, of 1700086400001 "fresh Map.empty"]
      empty past not_before
    by (simp add: fresh_def)
qed

section \<open>Unauthorised responses\<close>

text \<open>
  C9. For every response the client receives whose status is 401, the 401 handler runs:
  it invokes the registered logout callback (when one has been set with
  \<open>setLogoutCallback\<close>) and then resets the navigation stack to the single route
  \<open>Login\<close> (when the navigation is ready). A response with any other status, or with
  none, leaves everything as it is.
\<close>

theorem unauthorised_response_logs_out_and_shows_Login:
  "(status response = Some 401 \<longrightarrow> responseTransform api response st = handle401Error api st)
   \<and> (status response \<noteq> Some 401 \<longrightarrow> responseTransform api response st = st)
   \<and> logoutCallback (setLogoutCallback callback api0) = Some callback
   \<and> (logoutCallback api = Some callback \<longrightarrow>
        handle401Error api st =
          (if isReady (snd (callback st))
           then (fst (callback st), (snd (callback st))\<lparr>index := 0, routes := [js ''Login'']\<rparr>)
           else callback st))
   \<and> (logoutCallback api = None \<longrightarrow>
        handle401Error api st =
          (if isReady (snd st) then (fst st, (snd st)\<lparr>index := 0, routes := [js ''Login'']\<rparr>)
           else st))"
  by (simp add: responseTransform_def handle401Error_def setLogoutCallback_def reset_to_Login_def
      Let_def)

theorem unauthorised_response_logs_out_and_shows_Login_witness:
  "status \<lparr>status = Some 401\<rparr> = Some 401
   \<and> logoutCallback (setLogoutCallback count_logout \<lparr>logoutCallback = None\<rparr>) = Some count_logout
   \<and> responseTransform (setLogoutCallback count_logout \<lparr>logoutCallback = None\<rparr>)
        \<lparr>status = Some 401\<rparr> (0, on_profile)
       = (1, \<lparr>isReady = True, index = 0, routes = [js ''Login'']\<rparr>)
   \<and> status \<lparr>status = Some 403\<rparr> \<noteq> Some 401
   \<and> responseTransform (setLogoutCallback count_logout \<lparr>logoutCallback = None\<rparr>)
        \<lparr>status = Some 403\<rparr> (0, on_profile)
       = (0, on_profile)
   \<and> logoutCallback \<lparr>logoutCallback = (None :: (nat \<times> navigation \<Rightarrow> nat \<times> navigation) option)\<rparr> = None
   \<and> responseTransform \<lparr>logoutCallback = None\<rparr> \<lparr>status = Some 401\<rparr> (0 :: nat, on_profile)
       = (0, \<lparr>isReady = True, index = 0, routes = [js ''Login'']\<rparr>)"
  using unauthorised_response_logs_out_and_shows_Login
          [where response = "\<lparr>status = Some 401\<rparr>"
             and api = "setLogoutCallback count_logout \<lparr>logoutCallback = None\<rparr>"
             and st = "(0, on_profile)" and callback = count_logout
             and ?api0.0 = "\<lparr>logoutCallback = None\<rparr>"]
        unauthorised_response_logs_out_and_shows_Login
          [where response = "\<lparr>status = Some 403\<rparr>"
             and api = "setLogoutCallback count_logout \<lparr>logoutCallback = None\<rparr>"
             and st = "(0, on_profile)" and callback = count_logout
             and ?api0.0 = "\<lparr>logoutCallback = None\<rparr>"]
        unauthorised_response_logs_out_and_shows_Login
          [where response = "\<lparr>status = Some 401\<rparr>"
             and api = "\<lparr>logoutCallback = None\<rparr>"
             and st = "(0 :: nat, on_profile)" and callback = count_logout
             and ?api0.0 = "\<lparr>logoutCallback = None\<rparr>"]
  by (simp add: count_logout_def on_profile_def)

section \<open>Login\<close>

lemma login_demo:
  "login h (t1, t2, t3) (Inr ()) (js ''demo@example.com'') (js ''password'') w =
     (Inr \<lparr>success = True, err = None\<rparr>,
      w\<lparr>currentUser := Some \<lparr>user_id = js ''1'', email = js ''demo@example.com'',
                              name = Some (js ''Demo User''),
                              avatar = Some (js ''https://via.placeholder.com/150'')\<rparr>,
        session := Some \<lparr>token = js ''mock_jwt_token_'' @ Number_toString t1,
                          expiresAt = Some (toISOString h (t2 + 86400000)),
                          refreshToken = Some (js ''mock_refresh_token_'' @ Number_toString t3)\<rparr>,
        preferences := Some \<lparr>theme = System, language = js ''en'', notifications = True\<rparr>,
        isAuthenticating := False,
        error := None,
        storage := (storage w)
          (js ''userSession'' \<mapsto> JSON_stringify h (JObj
              [(js ''token'', JStr (js ''mock_jwt_token_'' @ Number_toString t1)),
               (js ''expiresAt'', JStr (toISOString h (t2 + 86400000))),
               (js ''refreshToken'', JStr (js ''mock_refresh_token_'' @ Number_toString t3))]),
           js ''currentUser'' \<mapsto> JSON_stringify h (JObj
              [(js ''id'', JStr (js ''1'')),
               (js ''email'', JStr (js ''demo@example.com'')),
               (js ''name'', JStr (js ''Demo User'')),
               (js ''avatar'', JStr (js ''https://via.placeholder.com/150''))]),
           js ''userPreferences'' \<mapsto> JSON_stringify h (UserPreferences_snapshot
              \<lparr>theme = System, language = js ''en'', notifications = True\<rparr>))\<rparr>)"
proof (cases "preferences w")
  case None
  then show ?thesis
    by (simp add: login_def flow_defs setter_defs js_def)
next
  case (Some p)
  then show ?thesis
    by (cases p) (simp add: login_def flow_defs setter_defs js_def)
qed

lemma login_rejected:
  assumes "\<not> (e = js ''demo@example.com'' \<and> p = js ''password'')"
  shows "login h clock (Inr ()) e p w =
     (Inr \<lparr>success = False, err = Some (js ''Invalid email or password'')\<rparr>,
      w\<lparr>isAuthenticating := False, error := Some (js ''Invalid email or password'')\<rparr>)"
  using assms by (cases clock) (auto simp add: login_def flow_defs setter_defs js_def)

lemma login_await_rejected:
  "login h clock (Inl x) e p w =
     (Inr \<lparr>success = False, err = Some (message_or x ''Login failed'')\<rparr>,
      setAuthenticating False
        (setError (Some (message_or x ''Login failed'')) (clearError (setAuthenticating True w))))"
  by (cases clock) (simp add: login_def flow_defs)

lemma login_failure:
  assumes "\<not> (e = js ''demo@example.com'' \<and> p = js ''password'')"
  shows "(\<exists>m. fst (login h clock r e p w) = Inr \<lparr>success = False, err = Some m\<rparr>)
         \<and> session (snd (login h clock r e p w)) = session w
         \<and> currentUser (snd (login h clock r e p w)) = currentUser w"
proof (cases r)
  case (Inl x)
  then show ?thesis
    by (simp add: login_await_rejected setAuthenticating_def setError_def clearError_def)
next
  case (Inr u)
  then show ?thesis
    by (simp add: login_rejected [OF assms])
qed

text \<open>
  C1, as the code has it. For every store state, after the login flow completes with
  the arguments \<open>"demo@example.com"\<close> and \<open>"password"\<close> (its awaited delay having
  resolved, as a timer does), \<open>isAuthenticated\<close> is true,
  \<open>session.token\<close> is a non-empty string and login returns \<open>{success: true}\<close>. For
  every other pair of arguments login returns \<open>{success: false}\<close> with a message and
  leaves the session as it was: unset if it was unset, and still set if the store held a
  session before.
\<close>

theorem login_demo_credentials_authenticate_others_change_no_session:
  "fst (login h clock (Inr ()) (js ''demo@example.com'') (js ''password'') w)
     = Inr \<lparr>success = True, err = None\<rparr>
   \<and> isAuthenticated (snd (login h clock (Inr ()) (js ''demo@example.com'') (js ''password'') w))
   \<and> (\<exists>s. session (snd (login h clock (Inr ()) (js ''demo@example.com'') (js ''password'') w)) = Some s
          \<and> token s \<noteq> [])
   \<and> (\<not> (e = js ''demo@example.com'' \<and> p = js ''password'') \<longrightarrow>
        (\<exists>m. fst (login h clock r e p w) = Inr \<lparr>success = False, err = Some m\<rparr>)
        \<and> session (snd (login h clock r e p w)) = session w)"
proof -
  obtain t1 t2 t3 where clock: "clock = (t1, t2, t3)"
    by (cases clock) auto
  have "fst (login h clock (Inr ()) (js ''demo@example.com'') (js ''password'') w)
          = Inr \<lparr>success = True, err = None\<rparr>"
    by (simp add: clock login_demo)
  moreover have "isAuthenticated (snd (login h clock (Inr ()) (js ''demo@example.com'') (js ''password'') w))"
    unfolding clock login_demo by (simp add: isAuthenticated_def no_token_def js_def)
  moreover have "\<exists>s. session (snd (login h clock (Inr ()) (js ''demo@example.com'') (js ''password'') w)) = Some s
          \<and> token s \<noteq> []"
    unfolding clock login_demo by (simp add: js_def)
  moreover have "\<not> (e = js ''demo@example.com'' \<and> p = js ''password'') \<longrightarrow>
        (\<exists>m. fst (login h clock r e p w) = Inr \<lparr>success = False, err = Some m\<rparr>)
        \<and> session (snd (login h clock r e p w)) = session w"
    using login_failure [of e p h clock r w] by blast
  ultimately show ?thesis
    by blast
qed

lemma secret_is_not_password: "js ''secret'' \<noteq> js ''password''"
  by (simp add: js_def)

lemma wrong_password: "\<not> (js ''demo@example.com'' = js ''demo@example.com'' \<and> js ''secret'' = js ''password'')"
  by (simp add: secret_is_not_password)

theorem login_demo_credentials_authenticate_others_change_no_session_witness:
  "\<not> (js ''demo@example.com'' = js ''demo@example.com'' \<and> js ''secret'' = js ''password'')
   \<and> fst (login plain_host (0, 0, 0) (Inr ()) (js ''demo@example.com'') (js ''secret'') (fresh Map.empty))
       = Inr \<lparr>success = False, err = Some (js ''Invalid email or password'')\<rparr>
   \<and> session (snd (login plain_host (0, 0, 0) (Inr ()) (js ''demo@example.com'') (js ''secret'') (fresh Map.empty)))
       = None
   \<and> fst (login plain_host (0, 0, 0) (Inr ()) (js ''demo@example.com'') (js ''password'') (fresh Map.empty))
       = Inr \<lparr>success = True, err = None\<rparr>
   \<and> isAuthenticated (snd (login plain_host (0, 0, 0) (Inr ()) (js ''demo@example.com'') (js ''password'') (fresh Map.empty)))"
  using login_demo_credentials_authenticate_others_change_no_session
          [of plain_host "(0, 0, 0)" "fresh Map.empty" "js ''demo@example.com''" "js ''secret''" "Inr ()"]
  by (simp add: secret_is_not_password login_rejected [OF wrong_password] fresh_def)

text \<open>
  The claim as the spec words it fails on a store that already holds a session: a
  rejected login leaves that session in place, so the session is not unset afterwards.
\<close>

theorem login_rejected_keeps_existing_session_counterexample:
  "(js ''demo@example.com'', js ''secret'') \<noteq> (js ''demo@example.com'', js ''password'')
   \<and> fst (login plain_host (0, 0, 0) (Inr ()) (js ''demo@example.com'') (js ''secret'') signed_in)
       = Inr \<lparr>success = False, err = Some (js ''Invalid email or password'')\<rparr>
   \<and> session (snd (login plain_host (0, 0, 0) (Inr ()) (js ''demo@example.com'') (js ''secret'') signed_in))
       = Some demo_session"
  by (simp add: secret_is_not_password login_rejected [OF wrong_password] signed_in_def)

section \<open>Loading flags\<close>

lemma finally_clears_isLoading:
  "isLoading (snd (try_catch_finally body handler (setLoading False) w)) = False"
  by (simp add: try_catch_finally_def setLoading_def split: prod.splits)

lemma finally_clears_isAuthenticating:
  "isAuthenticating (snd (try_catch_finally body handler (setAuthenticating False) w)) = False"
  by (simp add: try_catch_finally_def setAuthenticating_def split: prod.splits)

lemma signed_in_has_token: "\<not> no_token signed_in"
  by (simp add: no_token_def signed_in_def demo_session_def js_def)

lemma fresh_has_no_token: "no_token ((fresh st)\<lparr>isLoading := b\<rparr>)"
  by (simp add: no_token_def fresh_def)

text \<open>
  C7, as the code has it. For every store state and every flow of the UserStore that
  sets a loading flag at entry, the flag is false when the flow completes, whether its
  body succeeded or threw and whatever the awaited call did: \<open>isAuthenticating\<close> for
  login, \<open>isLoading\<close> for logout, hydrate and updatePreferences, and for refreshUser
  and updateUserProfile when the store has a session token. Without a session token
  refreshUser and updateUserProfile return before they set the flag and leave
  \<open>isLoading\<close> as it was.
\<close>

theorem flows_clear_the_loading_flag_they_set:
  "isAuthenticating (snd (login h clock r e p w)) = False
   \<and> isLoading (snd (logout h w)) = False
   \<and> isLoading (snd (hydrate h w)) = False
   \<and> isLoading (snd (updatePreferences h r prefs w)) = False
   \<and> (\<not> no_token w \<longrightarrow>
        isLoading (snd (refreshUser h r w)) = False
        \<and> isLoading (snd (updateUserProfile h r new_name new_avatar w)) = False)
   \<and> (no_token w \<longrightarrow>
        isLoading (snd (refreshUser h r w)) = isLoading w
        \<and> isLoading (snd (updateUserProfile h r new_name new_avatar w)) = isLoading w)"
proof -
  have "isAuthenticating (snd (login h clock r e p w)) = False"
    by (cases clock) (simp add: login_def finally_clears_isAuthenticating)
  moreover have "isLoading (snd (logout h w)) = False"
    by (simp add: logout_def finally_clears_isLoading)
  moreover have "isLoading (snd (hydrate h w)) = False"
    by (simp add: hydrate_def finally_clears_isLoading)
  moreover have "isLoading (snd (updatePreferences h r prefs w)) = False"
    by (simp add: updatePreferences_def finally_clears_isLoading)
  moreover have "\<not> no_token w \<longrightarrow>
        isLoading (snd (refreshUser h r w)) = False
        \<and> isLoading (snd (updateUserProfile h r new_name new_avatar w)) = False"
    by (simp add: refreshUser_def updateUserProfile_def finally_clears_isLoading)
  moreover have "no_token w \<longrightarrow>
        isLoading (snd (refreshUser h r w)) = isLoading w
        \<and> isLoading (snd (updateUserProfile h r new_name new_avatar w)) = isLoading w"
    by (simp add: refreshUser_def updateUserProfile_def flow_defs setError_def)
  ultimately show ?thesis
    by blast
qed

theorem flows_clear_the_loading_flag_they_set_witness:
  "\<not> no_token signed_in
   \<and> isLoading (snd (refreshUser plain_host (Inl (Thrown JNull)) signed_in)) = False
   \<and> isLoading (snd (updateUserProfile plain_host (Inr ()) (Some (js ''Ada'')) None signed_in)) = False
   \<and> no_token ((fresh Map.empty)\<lparr>isLoading := True\<rparr>)
   \<and> isLoading (snd (updateUserProfile plain_host (Inr ()) (Some (js ''Ada'')) None
                        ((fresh Map.empty)\<lparr>isLoading := True\<rparr>))) = True"
  using flows_clear_the_loading_flag_they_set
          [of plain_host "(0, 0, 0)" "Inl (Thrown JNull)" "[]" "[]" signed_in JNull "Some (js ''Ada'')" None]
        flows_clear_the_loading_flag_they_set
          [of plain_host "(0, 0, 0)" "Inr ()" "[]" "[]" signed_in JNull "Some (js ''Ada'')" None]
        flows_clear_the_loading_flag_they_set
          [of plain_host "(0, 0, 0)" "Inr ()" "[]" "[]" "(fresh Map.empty)\<lparr>isLoading := True\<rparr>"
              JNull "Some (js ''Ada'')" None]
  by (simp add: signed_in_has_token fresh_has_no_token)

text \<open>
  The claim as the spec words it fails for refreshUser on a store without a session
  whose \<open>isLoading\<close> is true: the flow returns at once and the flag stays true.
\<close>

theorem refreshUser_without_session_leaves_isLoading_counterexample:
  "isLoading ((fresh Map.empty)\<lparr>isLoading := True\<rparr>) = True
   \<and> fst (refreshUser plain_host (Inr ()) ((fresh Map.empty)\<lparr>isLoading := True\<rparr>)) = Inr ()
   \<and> isLoading (snd (refreshUser plain_host (Inr ()) ((fresh Map.empty)\<lparr>isLoading := True\<rparr>))) = True"
  by (simp add: refreshUser_def fresh_has_no_token)

section \<open>Setters on snapshots\<close>

lemma keys_distinct:
  "js ''userSession'' \<noteq> js ''currentUser''"
  "js ''userSession'' \<noteq> js ''userPreferences''"
  "js ''currentUser'' \<noteq> js ''userPreferences''"
  "js ''currentUser'' \<noteq> js ''userSession''"
  "js ''userPreferences'' \<noteq> js ''userSession''"
  "js ''userPreferences'' \<noteq> js ''currentUser''"
  by (simp_all add: js_def)

lemma User_create_snapshot: "User_create h (User_snapshot u) = Inr u"
  by (cases u) (auto simp add: User_create_def User_snapshot_def maybe_prop_def js_def
      split: option.splits)

lemma UserSession_create_snapshot:
  "UserSession_create h
     (JObj (object_literal
        [(js ''token'', field (UserSession_snapshot s) (js ''token'')),
         (js ''expiresAt'', field (UserSession_snapshot s) (js ''expiresAt'')),
         (js ''refreshToken'', field (UserSession_snapshot s) (js ''refreshToken''))])) = Inr s"
  by (cases s) (auto simp add: UserSession_create_def UserSession_snapshot_def maybe_prop_def js_def
      split: option.splits)

lemma UserPreferences_create_snapshot:
  "UserPreferences_create h (UserPreferences_snapshot p) = Inr p"
  by (cases p; cases "theme p")
     (auto simp add: UserPreferences_create_def UserPreferences_snapshot_def types_optional_def
        types_enumeration_def js_def)

lemma truthy_snapshots:
  "truthy (User_snapshot u)" "truthy (UserSession_snapshot s)" "truthy (UserPreferences_snapshot p)"
  by (simp_all add: User_snapshot_def UserSession_snapshot_def UserPreferences_snapshot_def)

lemma setSession_snapshot:
  "setSession h (UserSession_snapshot s) w =
     (Inr (), w\<lparr>session := Some s,
                storage := (storage w)(js ''userSession'' \<mapsto> JSON_stringify h (UserSession_snapshot s))\<rparr>)"
  by (simp add: setSession_def truthy_snapshots UserSession_create_snapshot)

lemma setCurrentUser_snapshot:
  "setCurrentUser h (User_snapshot u) w =
     (Inr (), w\<lparr>currentUser := Some u,
                storage := (storage w)(js ''currentUser'' \<mapsto> JSON_stringify h (User_snapshot u))\<rparr>)"
  by (simp add: setCurrentUser_def truthy_snapshots User_create_snapshot)

text \<open>What \<open>setPreferences(p)\<close> leaves in the store.\<close>

lemma assign_snapshot:
  "assign_theme h (UserPreferences_snapshot p) old = Inr (old\<lparr>theme := theme p\<rparr>)"
  "assign_language h (UserPreferences_snapshot p) old =
     Inr (if language p = [] then old else old\<lparr>language := language p\<rparr>)"
  "assign_notifications h (UserPreferences_snapshot p) old = Inr (old\<lparr>notifications := notifications p\<rparr>)"
  by (cases "theme p";
      simp add: assign_theme_def assign_language_def assign_notifications_def
        UserPreferences_snapshot_def types_enumeration_def js_def)+

lemma setPreferences_snapshot:
  "setPreferences h (UserPreferences_snapshot p) w =
     (Inr (), w\<lparr>preferences := Some (merged_preferences (preferences w) p),
                storage := (storage w)(js ''userPreferences'' \<mapsto>
                  JSON_stringify h (UserPreferences_snapshot (merged_preferences (preferences w) p)))\<rparr>)"
proof (cases "preferences w")
  case None
  then show ?thesis
    by (simp add: setPreferences_def UserPreferences_create_snapshot persist_preferences_def
        merged_preferences_def)
next
  case (Some old)
  have "UserPreferences_snapshot p \<noteq> JNull"
    by (simp add: UserPreferences_snapshot_def)
  then show ?thesis
    using Some
    by (simp add: setPreferences_def assign_snapshot persist_preferences_def merged_preferences_def)
qed

section \<open>The host reads back what it writes\<close>

lemma hex_value_hex_digit:
  assumes "0 \<le> d" and "d < 16"
  shows "hex_value (hex_digit d) = Some d"
proof -
  have "\<forall>x \<in> set [0..15]. hex_value (hex_digit x) = Some x"
    by (simp add: upto.simps hex_value_def hex_digit_def)
  moreover have "d \<in> set [0..15]"
    using assms by simp
  ultimately show ?thesis
    by blast
qed

lemma hex_digits_value:
  fixes n :: int
  shows "((n div 4096 * 16 + n div 256 mod 16) * 16 + n div 16 mod 16) * 16 + n mod 16 = n"
proof -
  define q1 r0 q2 r1 q3 r2
    where "q1 = n div 16" and "r0 = n mod 16" and "q2 = q1 div 16" and "r1 = q1 mod 16"
      and "q3 = q2 div 16" and "r2 = q2 mod 16"
  have split: "n = q1 * 16 + r0" "q1 = q2 * 16 + r1" "q2 = q3 * 16 + r2"
    unfolding q1_def r0_def q2_def r1_def q3_def r2_def
    by (rule div_mult_mod_eq [symmetric])+
  have "n div 256 = n div 16 div 16" "n div 4096 = n div 16 div 16 div 16"
    by (simp_all add: zdiv_zmult2_eq)
  then have "n div 256 = q2" "n div 4096 = q3"
    unfolding q3_def q2_def q1_def by simp_all
  then have "((n div 4096 * 16 + n div 256 mod 16) * 16 + n div 16 mod 16) * 16 + n mod 16
               = ((q3 * 16 + r2) * 16 + r1) * 16 + r0"
    unfolding r2_def r1_def r0_def q1_def [symmetric] by simp
  also have "\<dots> = n"
    using split by (simp only:)
  finally show ?thesis .
qed

lemma read_plain:
  assumes "c \<noteq> 0x22" "c \<noteq> 0x5C" "\<not> c < 0x20"
  shows "read_chars (c # t) = cons_fst c (read_chars t)"
  using assms by simp

lemma read_short_escape:
  assumes "unescape e = Some x" "e \<noteq> 0x75"
  shows "read_chars (0x5C # e # t) = cons_fst x (read_chars t)"
  using assms by simp

lemma read_four_hex:
  "read_chars ([0x5C, 0x75, a, b, c, d] @ t) =
     (case (hex_value a, hex_value b, hex_value c, hex_value d) of
        (Some x3, Some x2, Some x1, Some x0) \<Rightarrow>
           cons_fst (of_int (((x3 * 16 + x2) * 16 + x1) * 16 + x0)) (read_chars t)
      | _ \<Rightarrow> None)"
  by simp

lemma read_unicode_escape:
  "read_chars (unicode_escape c @ t) = cons_fst c (read_chars t)"
proof -
  let ?n = "uint c"
  have range: "0 \<le> ?n" "?n < 65536"
    using uint_lt2p [of c] by simp_all
  then have "0 \<le> ?n div 4096" "?n div 4096 < 16" "0 \<le> ?n div 256 mod 16" "?n div 256 mod 16 < 16"
    "0 \<le> ?n div 16 mod 16" "?n div 16 mod 16 < 16" "0 \<le> ?n mod 16" "?n mod 16 < 16"
    by arith+
  then have digits: "hex_value (hex_digit (?n div 4096)) = Some (?n div 4096)"
    "hex_value (hex_digit (?n div 256 mod 16)) = Some (?n div 256 mod 16)"
    "hex_value (hex_digit (?n div 16 mod 16)) = Some (?n div 16 mod 16)"
    "hex_value (hex_digit (?n mod 16)) = Some (?n mod 16)"
    by (simp_all add: hex_value_hex_digit)
  have "of_int (((?n div 4096 * 16 + ?n div 256 mod 16) * 16 + ?n div 16 mod 16) * 16 + ?n mod 16) = c"
    using hex_digits_value [of ?n] by simp
  then show ?thesis
    unfolding unicode_escape_def Let_def read_four_hex digits by simp
qed

lemma read_escape:
  assumes "\<not> high_surrogate c" and "\<not> low_surrogate c"
  shows "read_chars (escape c @ t) = cons_fst c (read_chars t)"
proof -
  consider "c = 0x22" | "c = 0x5C" | "c = 0x08" | "c = 0x0C" | "c = 0x0A" | "c = 0x0D" | "c = 0x09"
    | "c \<noteq> 0x22" "c \<noteq> 0x5C" "c \<noteq> 0x08" "c \<noteq> 0x0C" "c \<noteq> 0x0A" "c \<noteq> 0x0D" "c \<noteq> 0x09" "c < 0x20"
    | "c \<noteq> 0x22" "c \<noteq> 0x5C" "c \<noteq> 0x08" "c \<noteq> 0x0C" "c \<noteq> 0x0A" "c \<noteq> 0x0D" "c \<noteq> 0x09" "\<not> c < 0x20"
    by blast
  then show ?thesis
  proof cases
    case 8
    then show ?thesis
      by (simp add: escape_def read_unicode_escape del: read_chars.simps)
  next
    case 9
    then show ?thesis
      by (simp add: escape_def read_plain del: read_chars.simps)
  qed (simp_all add: escape_def unescape_def read_short_escape del: read_chars.simps)
qed

lemma surrogate_is_plain:
  assumes "high_surrogate c \<or> low_surrogate c"
  shows "c \<noteq> 0x22" "c \<noteq> 0x5C" "\<not> c < 0x20"
  using assms
  by (auto simp add: high_surrogate_def low_surrogate_def word_le_nat_alt word_less_nat_alt)

lemma cons_fst_Some: "cons_fst x (Some (xs, t)) = Some (x # xs, t)"
  by (simp add: cons_fst_def)

lemma read_quote_chars: "read_chars (quote_chars s @ 0x22 # t) = Some (s, t)"
proof (induction s rule: quote_chars.induct)
  case 1
  show ?case
    by simp
next
  case (2 c)
  have closing: "read_chars (0x22 # t) = Some ([], t)"
    by simp
  show ?case
  proof (cases "high_surrogate c \<or> low_surrogate c")
    case True
    then show ?thesis
      by (simp add: read_unicode_escape closing cons_fst_Some del: read_chars.simps)
  next
    case False
    then show ?thesis
      by (simp add: read_escape closing cons_fst_Some del: read_chars.simps)
  qed
next
  case (3 c d cs)
  show ?case
  proof (cases "high_surrogate c")
    case True
    show ?thesis
    proof (cases "low_surrogate d")
      case low: True
      have "read_chars (c # d # quote_chars cs @ 0x22 # t) = Some (c # d # cs, t)"
        using True low 3(1) surrogate_is_plain [of c] surrogate_is_plain [of d]
        by (simp add: read_plain cons_fst_Some del: read_chars.simps)
      then show ?thesis
        using True low by simp
    next
      case False
      then show ?thesis
        using True 3(2) by (simp add: read_unicode_escape cons_fst_Some del: read_chars.simps)
    qed
  next
    case False
    show ?thesis
    proof (cases "low_surrogate c")
      case True
      then show ?thesis
        using False 3(3) by (simp add: read_unicode_escape cons_fst_Some del: read_chars.simps)
    next
      case not_low: False
      then show ?thesis
        using False 3(4) by (simp add: read_escape cons_fst_Some del: read_chars.simps)
    qed
  qed
qed

lemma skip_space_no_space: "\<not> is_json_space c \<Longrightarrow> skip_space (c # t) = c # t"
  by (simp add: skip_space_def)

lemma not_spaces:
  "\<not> is_json_space 0x22" "\<not> is_json_space 0x3A" "\<not> is_json_space 0x2C" "\<not> is_json_space 0x7D"
  "\<not> is_json_space 0x7B" "\<not> is_json_space 0x74" "\<not> is_json_space 0x66"
  by (simp_all add: is_json_space_def)

text \<open>The values of the stored objects are strings and booleans.\<close>

lemma read_value_string: "read_value (Suc n) (quote s @ t) = Some (JStr s, t)"
  by (simp add: quote_def skip_space_no_space not_spaces read_quote_chars del: read_chars.simps)

lemma read_value_boolean: "read_value (Suc n) (write_json (JBool b) @ t) = Some (JBool b, t)"
  by (cases b) (simp_all add: js_def skip_space_no_space is_json_space_def starts_with_def)

lemma read_value_flat:
  assumes "(\<exists>s. v = JStr s) \<or> (\<exists>b. v = JBool b)"
  shows "read_value (Suc n) (write_json v @ t) = Some (v, t)"
  using assms read_value_string [of n _ t] read_value_boolean [of n _ t] by auto

lemma define_new_property:
  assumes "k \<notin> fst ` set acc" and "array_index k = None"
  shows "define_property acc k v = acc @ [(k, v)]"
  using assms by (simp add: define_property_def)

text \<open>One member \<open>"k":v\<close> followed by a comma or the closing brace.\<close>

lemma read_member_then_comma:
  assumes "(\<exists>s. v = JStr s) \<or> (\<exists>b. v = JBool b)"
  shows "read_members (Suc (Suc n)) acc (quote k @ js '':'' @ write_json v @ js '','' @ t)
           = read_members (Suc n) (define_property acc k v) t"
proof -
  have "read_value (Suc n) (write_json v @ 0x2C # t) = Some (v, 0x2C # t)"
    using read_value_flat [OF assms] .
  then show ?thesis
    by (simp add: quote_def js_def skip_space_no_space not_spaces read_quote_chars
        del: read_chars.simps read_value.simps)
qed

lemma read_member_then_brace:
  assumes "(\<exists>s. v = JStr s) \<or> (\<exists>b. v = JBool b)"
  shows "read_members (Suc (Suc n)) acc (quote k @ js '':'' @ write_json v @ js ''}'' @ t)
           = Some (JObj (define_property acc k v), t)"
proof -
  have "read_value (Suc n) (write_json v @ 0x7D # t) = Some (v, 0x7D # t)"
    using read_value_flat [OF assms] .
  then show ?thesis
    by (simp add: quote_def js_def skip_space_no_space not_spaces read_quote_chars
        del: read_chars.simps read_value.simps)
qed

lemma read_members_flat:
  assumes "\<forall>kv \<in> set kvs. array_index (fst kv) = None
             \<and> ((\<exists>s. snd kv = JStr s) \<or> (\<exists>b. snd kv = JBool b))"
    and "distinct (map fst (acc @ kvs))" and "kvs \<noteq> []" and "length kvs < n"
  shows "read_members n acc
           (join (map (\<lambda>kv. quote (fst kv) @ js '':'' @ write_json (snd kv)) kvs) @ js ''}'' @ t)
         = Some (JObj (acc @ kvs), t)"
  using assms
proof (induction kvs arbitrary: acc n)
  case Nil
  then show ?case
    by simp
next
  case (Cons kv kvs)
  obtain m where n: "n = Suc (Suc m)" and m: "length kvs \<le> m"
    using Cons.prems(4) by (cases n; cases "n - 1") auto
  have flat: "(\<exists>s. snd kv = JStr s) \<or> (\<exists>b. snd kv = JBool b)"
    using Cons.prems(1) by simp
  have fresh_key: "define_property acc (fst kv) (snd kv) = acc @ [kv]"
    using Cons.prems(1,2) by (simp add: define_new_property)
  show ?case
  proof (cases kvs)
    case Nil
    then show ?thesis
      using read_member_then_brace [OF flat, of m acc "fst kv" t] fresh_key n by simp
  next
    case (Cons kv' rest)
    have "read_members (Suc m) (acc @ [kv])
            (join (map (\<lambda>kv. quote (fst kv) @ js '':'' @ write_json (snd kv)) kvs) @ js ''}'' @ t)
          = Some (JObj ((acc @ [kv]) @ kvs), t)"
      using Cons.prems Cons m by (intro Cons.IH) auto
    then show ?thesis
      using read_member_then_comma [OF flat, of m acc "fst kv"] fresh_key n Cons by simp
  qed
qed

lemma join_length: "(\<forall>x \<in> set xs. x \<noteq> []) \<Longrightarrow> length xs \<le> length (join xs)"
proof (induction xs rule: join.induct)
  case (3 x y ys)
  then have "length (y # ys) \<le> length (join (y # ys))" "x \<noteq> []"
    by simp_all
  then show ?case
    by (cases x) (simp_all add: js_def)
qed (auto simp add: Suc_leI)

text \<open>
  A non-empty object with distinct keys, none of them an array index, whose values are
  strings and booleans is read back from its text.
\<close>

lemma parse_json_flat_object:
  assumes "\<forall>kv \<in> set kvs. array_index (fst kv) = None
             \<and> ((\<exists>s. snd kv = JStr s) \<or> (\<exists>b. snd kv = JBool b))"
    and "distinct (map fst kvs)" and "kvs \<noteq> []"
  shows "parse_json (write_json (JObj kvs)) = Inr (JObj kvs)"
proof -
  let ?members = "join (map (\<lambda>kv. quote (fst kv) @ js '':'' @ write_json (snd kv)) kvs)"
  let ?text = "write_json (JObj kvs)"
  have shape: "?text = 0x7B # ?members @ js ''}'' @ []"
    by (simp add: js_def)
  have "length kvs \<le> length ?members"
    using join_length [of "map (\<lambda>kv. quote (fst kv) @ js '':'' @ write_json (snd kv)) kvs"]
    by (simp add: quote_def)
  then have fuel: "length kvs < 2 * length ?text + 1"
    by (simp add: shape)
  obtain kv rest where kvs: "kvs = kv # rest"
    using assms(3) by (cases kvs) auto
  have "\<exists>tail. ?members = 0x22 # tail"
    unfolding kvs by (cases rest) (simp_all add: quote_def)
  then obtain tail where first: "?members = 0x22 # tail"
    by blast
  have "read_value (Suc (2 * length ?text + 1)) ?text
          = read_members (2 * length ?text + 1) [] (?members @ js ''}'' @ [])"
    unfolding shape first
    by (simp add: skip_space_no_space not_spaces del: read_members.simps)
  also have "\<dots> = Some (JObj ([] @ kvs), [])"
    using assms fuel by (intro read_members_flat) auto
  finally show ?thesis
    by (simp add: parse_json_def skip_space_def del: write_json.simps)
qed

lemma property_names_are_no_indices:
  "array_index (js ''token'') = None" "array_index (js ''expiresAt'') = None"
  "array_index (js ''refreshToken'') = None" "array_index (js ''id'') = None"
  "array_index (js ''email'') = None" "array_index (js ''name'') = None"
  "array_index (js ''avatar'') = None" "array_index (js ''theme'') = None"
  "array_index (js ''language'') = None" "array_index (js ''notifications'') = None"
  by (simp_all add: array_index_def js_def is_digit_def)

lemma reads_back_flat_object:
  assumes "\<forall>kv \<in> set kvs. array_index (fst kv) = None
             \<and> ((\<exists>s. snd kv = JStr s) \<or> (\<exists>b. snd kv = JBool b))"
    and "distinct (map fst kvs)" and "kvs \<noteq> []"
  shows "reads_back plain_host (JObj kvs)"
  using parse_json_flat_object [OF assms]
  by (simp add: reads_back_def plain_host_fields js_def del: write_json.simps)
     (simp add: js_def)

text \<open>
  On this host every session, every user and all preferences are read back from the
  blobs that are written for them.
\<close>

lemma plain_host_reads_back:
  "reads_back plain_host (UserSession_snapshot s)"
  "reads_back plain_host (User_snapshot u)"
  "reads_back plain_host (UserPreferences_snapshot p)"
proof -
  show "reads_back plain_host (UserSession_snapshot s)"
    unfolding UserSession_snapshot_def
    by (rule reads_back_flat_object)
       (auto simp add: maybe_prop_def property_names_are_no_indices split: option.splits,
        simp_all add: js_def)
  show "reads_back plain_host (User_snapshot u)"
    unfolding User_snapshot_def
    by (rule reads_back_flat_object)
       (auto simp add: maybe_prop_def property_names_are_no_indices split: option.splits,
        simp_all add: js_def)
  show "reads_back plain_host (UserPreferences_snapshot p)"
    unfolding UserPreferences_snapshot_def
    by (rule reads_back_flat_object)
       (auto simp add: property_names_are_no_indices, simp_all add: js_def)
qed

section \<open>Hydration\<close>

lemma restore_parse_failure:
  assumes "storage w (js key) = Some blob" and "blob \<noteq> []" and "JSON_parse h blob = Inl e"
  shows "restore h key action w = (Inl e, w)"
  using assms by (simp add: restore_def)

lemma restore_reads_back:
  assumes "storage w (js key) = Some (JSON_stringify h v)" and "reads_back h v"
  shows "restore h key action w = action h v w"
  using assms by (simp add: restore_def reads_back_def)

text \<open>The setters touch the error field nowhere, and each setter writes to its own key only.\<close>

lemma setSession_frame:
  "error (snd (setSession h v w)) = error w"
  "k \<noteq> js ''userSession'' \<Longrightarrow> storage (snd (setSession h v w)) k = storage w k"
  by (simp_all add: setSession_def split: sum.splits)

lemma setCurrentUser_frame:
  "error (snd (setCurrentUser h v w)) = error w"
  "k \<noteq> js ''currentUser'' \<Longrightarrow> storage (snd (setCurrentUser h v w)) k = storage w k"
  by (simp_all add: setCurrentUser_def split: sum.splits)

lemma setPreferences_frame:
  "error (snd (setPreferences h v w)) = error w"
  by (simp add: setPreferences_def persist_preferences_def split: sum.splits option.splits)

lemma restore_frame:
  assumes "\<And>v w. f (snd (action h v w)) = f w"
  shows "f (snd (restore h key action w)) = f w"
  using assms by (simp add: restore_def split: option.splits sum.splits)

lemma seq_frame:
  assumes "\<And>w. f (snd (a w)) = f w" and "\<And>w. f (snd (b w)) = f w"
  shows "f (snd (seq a b w)) = f w"
proof (cases "a w")
  case (Pair r w1)
  have "f w1 = f w"
    using assms(1) [of w] Pair by simp
  then show ?thesis
    using assms(2) [of w1] Pair by (cases r) (simp_all add: seq_def andThen_def)
qed

lemma hydrate_attempt_error: "error (snd (hydrate_attempt h w)) = error w"
  unfolding hydrate_attempt_def
  by (intro seq_frame restore_frame setSession_frame setCurrentUser_frame setPreferences_frame)

lemma seq_throws_first:
  assumes "a w = (Inl e, w1)"
  shows "seq a b w = (Inl e, w1)"
  using assms by (simp add: seq_def andThen_def)

text \<open>
  A stored blob that is not empty and that \<open>JSON.parse\<close> rejects makes the body of
  \<open>hydrate\<close> throw, whichever of the three keys it sits under.
\<close>

lemma hydrate_attempt_throws:
  assumes "key \<in> {''userSession'', ''currentUser'', ''userPreferences''}"
    and "storage w (js key) = Some blob" and "blob \<noteq> []" and "JSON_parse h blob = Inl e"
  shows "\<exists>e'. fst (hydrate_attempt h w) = Inl e'"
proof -
  let ?bad = "\<lambda>k w. storage w (js k) = Some blob"
  have user_step: "fst (restore h ''currentUser'' setCurrentUser w1) = Inl e \<or> \<not> ?bad ''currentUser'' w1"
    for w1
    using restore_parse_failure [OF _ assms(3,4), of w1 "''currentUser''" setCurrentUser] by auto
  have prefs_step: "fst (restore h ''userPreferences'' setPreferences w1) = Inl e \<or> \<not> ?bad ''userPreferences'' w1"
    for w1
    using restore_parse_failure [OF _ assms(3,4), of w1 "''userPreferences''" setPreferences] by auto
  have after_session: "storage (snd (restore h ''userSession'' setSession w1)) k = storage w1 k"
    if "k \<noteq> js ''userSession''" for k w1
    using that by (intro restore_frame) (simp add: setSession_frame)
  have after_user: "storage (snd (restore h ''currentUser'' setCurrentUser w1)) k = storage w1 k"
    if "k \<noteq> js ''currentUser''" for k w1
    using that by (intro restore_frame) (simp add: setCurrentUser_frame)
  consider "key = ''userSession''" | "key = ''currentUser''" | "key = ''userPreferences''"
    using assms(1) by auto
  then show ?thesis
  proof cases
    case 1
    then have "restore h ''userSession'' setSession w = (Inl e, w)"
      using restore_parse_failure [OF _ assms(3,4)] assms(2) by simp
    then show ?thesis
      by (simp add: hydrate_attempt_def seq_throws_first)
  next
    case 2
    have "\<exists>e'. fst (seq (restore h ''currentUser'' setCurrentUser)
                     (restore h ''userPreferences'' setPreferences) w1) = Inl e'"
      if "?bad ''currentUser'' w1" for w1
      using that user_step [of w1]
      by (cases "restore h ''currentUser'' setCurrentUser w1") (auto simp add: seq_def andThen_def)
    then have "\<exists>e'. fst (seq (restore h ''currentUser'' setCurrentUser)
                     (restore h ''userPreferences'' setPreferences) w1) = Inl e'
               \<or> \<not> ?bad ''currentUser'' w1" for w1
      by blast
    moreover have "?bad ''currentUser'' (snd (restore h ''userSession'' setSession w))"
      using assms(2) 2 by (simp add: after_session keys_distinct)
    ultimately show ?thesis
      unfolding hydrate_attempt_def
      by (cases "restore h ''userSession'' setSession w";
          cases "fst (restore h ''userSession'' setSession w)")
         (auto simp add: seq_def andThen_def)
  next
    case 3
    have inner: "\<exists>e'. fst (seq (restore h ''currentUser'' setCurrentUser)
                     (restore h ''userPreferences'' setPreferences) w1) = Inl e'"
      if "?bad ''userPreferences'' w1" for w1
    proof -
      have "?bad ''userPreferences'' (snd (restore h ''currentUser'' setCurrentUser w1))"
        using that by (simp add: after_user keys_distinct)
      then show ?thesis
        using prefs_step [of "snd (restore h ''currentUser'' setCurrentUser w1)"]
        by (cases "restore h ''currentUser'' setCurrentUser w1";
            cases "fst (restore h ''currentUser'' setCurrentUser w1)")
           (auto simp add: seq_def andThen_def)
    qed
    have "?bad ''userPreferences'' (snd (restore h ''userSession'' setSession w))"
      using assms(2) 3 by (simp add: after_session keys_distinct)
    then show ?thesis
      using inner [of "snd (restore h ''userSession'' setSession w)"]
      unfolding hydrate_attempt_def
      by (cases "restore h ''userSession'' setSession w";
          cases "fst (restore h ''userSession'' setSession w)")
         (auto simp add: seq_def andThen_def)
  qed
qed

lemma hydrate_returns: "fst (hydrate h w) = Inr ()"
  by (cases "hydrate_attempt h (setLoading True w)";
      cases "fst (hydrate_attempt h (setLoading True w))")
     (auto simp add: hydrate_def try_catch_finally_def try_catch_def clear_session_and_user)

lemma hydrate_error: "error (snd (hydrate h w)) = error w"
proof -
  have "error (snd (hydrate_attempt h (setLoading True w))) = error w"
    by (simp add: hydrate_attempt_error setLoading_def)
  then show ?thesis
    by (cases "hydrate_attempt h (setLoading True w)";
        cases "fst (hydrate_attempt h (setLoading True w))")
       (auto simp add: hydrate_def try_catch_finally_def try_catch_def clear_session_and_user
          setLoading_def)
qed

lemma hydrate_after_throw:
  assumes "fst (hydrate_attempt h (setLoading True w)) = Inl e"
  shows "session (snd (hydrate h w)) = None \<and> currentUser (snd (hydrate h w)) = None"
  using assms
  by (cases "hydrate_attempt h (setLoading True w)")
     (auto simp add: hydrate_def try_catch_finally_def try_catch_def clear_session_and_user
        setLoading_def)

text \<open>
  An empty blob is skipped, so a storage that holds one is read back like the storage
  without it: every step of the flow keeps the two runs in step.
\<close>

lemma restore_empty_blob:
  assumes "storage w (js key) = Some []"
  shows "restore h key action w = (Inr (), w)"
  using assms by (simp add: restore_def)

lemma setSession_empty_for_absent:
  assumes "empty_for_absent k w w'"
  shows "fst (setSession h v w') = fst (setSession h v w)
         \<and> empty_for_absent k (snd (setSession h v w)) (snd (setSession h v w'))"
  using assms
  by (auto simp add: setSession_def empty_for_absent_def same_store_def split: sum.splits)

lemma setCurrentUser_empty_for_absent:
  assumes "empty_for_absent k w w'"
  shows "fst (setCurrentUser h v w') = fst (setCurrentUser h v w)
         \<and> empty_for_absent k (snd (setCurrentUser h v w)) (snd (setCurrentUser h v w'))"
  using assms
  by (auto simp add: setCurrentUser_def empty_for_absent_def same_store_def split: sum.splits)

lemma setPreferences_empty_for_absent:
  assumes "empty_for_absent k w w'"
  shows "fst (setPreferences h v w') = fst (setPreferences h v w)
         \<and> empty_for_absent k (snd (setPreferences h v w)) (snd (setPreferences h v w'))"
proof -
  have same: "preferences w' = preferences w"
    using assms by (simp add: empty_for_absent_def same_store_def)
  show ?thesis
    using assms
    by (auto simp add: setPreferences_def persist_preferences_def same empty_for_absent_def
        same_store_def split: sum.splits option.splits)
qed

lemma restore_empty_for_absent:
  assumes step: "\<And>v w w'. empty_for_absent k w w' \<Longrightarrow>
                   fst (action h v w') = fst (action h v w)
                   \<and> empty_for_absent k (snd (action h v w)) (snd (action h v w'))"
    and related: "empty_for_absent k w w'"
  shows "fst (restore h key action w') = fst (restore h key action w)
         \<and> empty_for_absent k (snd (restore h key action w)) (snd (restore h key action w'))"
proof (cases "storage w' (js key) = storage w (js key)")
  case True
  then show ?thesis
    using step [OF related] related
    by (auto simp add: restore_def split: option.splits sum.splits)
next
  case False
  then have "js key = k"
    using related unfolding empty_for_absent_def by blast
  then have "storage w (js key) = Some []" "storage w' (js key) = None"
    using False related unfolding empty_for_absent_def by blast+
  then show ?thesis
    using related by (simp add: restore_def)
qed

lemma seq_empty_for_absent:
  assumes first: "\<And>w w'. empty_for_absent k w w' \<Longrightarrow>
                   fst (a w') = fst (a w) \<and> empty_for_absent k (snd (a w)) (snd (a w'))"
    and second: "\<And>w w'. empty_for_absent k w w' \<Longrightarrow>
                   fst (b w') = fst (b w) \<and> empty_for_absent k (snd (b w)) (snd (b w'))"
    and related: "empty_for_absent k w w'"
  shows "fst (seq a b w') = fst (seq a b w)
         \<and> empty_for_absent k (snd (seq a b w)) (snd (seq a b w'))"
proof -
  obtain r w1 r' w1' where runs: "a w = (r, w1)" "a w' = (r', w1')"
    by (cases "a w"; cases "a w'") auto
  have after: "r' = r" "empty_for_absent k w1 w1'"
    using first [OF related] runs by simp_all
  show ?thesis
  proof (cases r)
    case (Inl e)
    then show ?thesis
      using runs after by (simp add: seq_def andThen_def)
  next
    case (Inr u)
    then show ?thesis
      using runs after second [OF after(2)] by (simp add: seq_def andThen_def)
  qed
qed

lemma hydrate_attempt_empty_for_absent:
  assumes "empty_for_absent k w w'"
  shows "fst (hydrate_attempt h w') = fst (hydrate_attempt h w)
         \<and> empty_for_absent k (snd (hydrate_attempt h w)) (snd (hydrate_attempt h w'))"
  unfolding hydrate_attempt_def
  by (intro seq_empty_for_absent restore_empty_for_absent setSession_empty_for_absent
      setCurrentUser_empty_for_absent setPreferences_empty_for_absent assms)

lemma hydrate_empty_for_absent:
  assumes "empty_for_absent k w w'"
  shows "fst (hydrate h w') = fst (hydrate h w)
         \<and> empty_for_absent k (snd (hydrate h w)) (snd (hydrate h w'))"
proof -
  have start: "empty_for_absent k (setLoading True w) (setLoading True w')"
    using assms by (simp add: empty_for_absent_def same_store_def setLoading_def)
  obtain r w1 r' w1' where runs: "hydrate_attempt h (setLoading True w) = (r, w1)"
      "hydrate_attempt h (setLoading True w') = (r', w1')"
    by (cases "hydrate_attempt h (setLoading True w)"; cases "hydrate_attempt h (setLoading True w')")
       auto
  have after: "r' = r" "empty_for_absent k w1 w1'"
    using hydrate_attempt_empty_for_absent [OF start, of h] runs by simp_all
  show ?thesis
  proof (cases r)
    case (Inl e)
    then show ?thesis
      using runs after
      by (auto simp add: hydrate_def try_catch_finally_def try_catch_def clear_session_and_user
          setLoading_def empty_for_absent_def same_store_def)
  next
    case (Inr u)
    then show ?thesis
      using runs after
      by (auto simp add: hydrate_def try_catch_finally_def try_catch_def setLoading_def
          empty_for_absent_def same_store_def)
  qed
qed

lemma hydrate_ignores_empty_blob:
  assumes "storage w (js key) = Some []"
  shows "fst (hydrate h w) = fst (hydrate h (w\<lparr>storage := storage_delete (js key) (storage w)\<rparr>))
         \<and> same_store (snd (hydrate h w))
              (snd (hydrate h (w\<lparr>storage := storage_delete (js key) (storage w)\<rparr>)))
         \<and> (\<forall>j. j \<noteq> js key \<longrightarrow>
               storage (snd (hydrate h w)) j
                 = storage (snd (hydrate h (w\<lparr>storage := storage_delete (js key) (storage w)\<rparr>))) j)"
proof -
  have "empty_for_absent (js key) w (w\<lparr>storage := storage_delete (js key) (storage w)\<rparr>)"
    using assms by (simp add: empty_for_absent_def same_store_def)
  then show ?thesis
    using hydrate_empty_for_absent [of "js key" w _ h] by (simp add: empty_for_absent_def)
qed

text \<open>
  C3, as the code has it. For every store state and every storage content in which one
  of the three persisted blobs is a non-empty string that \<open>JSON.parse\<close> rejects, the
  hydrate flow completes without raising, ends with \<open>session\<close> and \<open>currentUser\<close>
  unset, and leaves the store's \<open>error\<close> field as it was. An empty string under a key
  is treated as an absent blob: reading it back does nothing, whatever the host's parser
  and the setter, and the hydrate flow has the outcome and ends with the store it has once
  that key is deleted, with the same content under every other key.
\<close>

theorem hydrate_clears_state_on_corrupted_blob:
  "(key \<in> {''userSession'', ''currentUser'', ''userPreferences''}
      \<and> storage w (js key) = Some blob \<and> blob \<noteq> [] \<and> JSON_parse h blob = Inl e
    \<longrightarrow> fst (hydrate h w) = Inr ()
        \<and> session (snd (hydrate h w)) = None
        \<and> currentUser (snd (hydrate h w)) = None
        \<and> error (snd (hydrate h w)) = error w)
   \<and> (storage w (js empty_key) = Some []
    \<longrightarrow> restore h empty_key action w = (Inr (), w)
        \<and> fst (hydrate h w)
            = fst (hydrate h (w\<lparr>storage := storage_delete (js empty_key) (storage w)\<rparr>))
        \<and> same_store (snd (hydrate h w))
             (snd (hydrate h (w\<lparr>storage := storage_delete (js empty_key) (storage w)\<rparr>)))
        \<and> (\<forall>j. j \<noteq> js empty_key \<longrightarrow>
              storage (snd (hydrate h w)) j
                = storage (snd (hydrate h
                     (w\<lparr>storage := storage_delete (js empty_key) (storage w)\<rparr>))) j))"
proof (intro conjI impI)
  assume corrupted: "key \<in> {''userSession'', ''currentUser'', ''userPreferences''}
      \<and> storage w (js key) = Some blob \<and> blob \<noteq> [] \<and> JSON_parse h blob = Inl e"
  then have "storage (setLoading True w) (js key) = Some blob"
    by (simp add: setLoading_def)
  then obtain e' where thrown: "fst (hydrate_attempt h (setLoading True w)) = Inl e'"
    using hydrate_attempt_throws [of key "setLoading True w" blob h e] corrupted by blast
  show "fst (hydrate h w) = Inr ()"
    by (rule hydrate_returns)
  show "session (snd (hydrate h w)) = None" "currentUser (snd (hydrate h w)) = None"
    using hydrate_after_throw [OF thrown] by simp_all
  show "error (snd (hydrate h w)) = error w"
    by (rule hydrate_error)
next
  assume empty: "storage w (js empty_key) = Some []"
  show "restore h empty_key action w = (Inr (), w)"
    using empty by (rule restore_empty_blob)
  show "fst (hydrate h w)
          = fst (hydrate h (w\<lparr>storage := storage_delete (js empty_key) (storage w)\<rparr>))"
    "same_store (snd (hydrate h w))
       (snd (hydrate h (w\<lparr>storage := storage_delete (js empty_key) (storage w)\<rparr>)))"
    "\<forall>j. j \<noteq> js empty_key \<longrightarrow>
       storage (snd (hydrate h w)) j
         = storage (snd (hydrate h (w\<lparr>storage := storage_delete (js empty_key) (storage w)\<rparr>))) j"
    using hydrate_ignores_empty_blob [OF empty, of h] by simp_all
qed

lemma plain_host_rejects_empty_text:
  "JSON_parse plain_host [] = Inl (Error (js ''Unexpected token in JSON''))"
  unfolding plain_host_fields by code_simp

lemma truncated_blob:
  "take 20 (write_json (UserSession_snapshot demo_session)) \<noteq> []"
  "parse_json (take 20 (write_json (UserSession_snapshot demo_session)))
     = Inl (Error (js ''Unexpected token in JSON''))"
  by code_simp+

theorem hydrate_clears_state_on_corrupted_blob_witness:
  "''userSession'' \<in> {''userSession'', ''currentUser'', ''userPreferences''}
   \<and> storage (signed_in\<lparr>storage := truncated_session_blob\<rparr>) (js ''userSession'')
       = Some (take 20 (write_json (UserSession_snapshot demo_session)))
   \<and> take 20 (write_json (UserSession_snapshot demo_session)) \<noteq> []
   \<and> JSON_parse plain_host (take 20 (write_json (UserSession_snapshot demo_session)))
       = Inl (Error (js ''Unexpected token in JSON''))
   \<and> fst (hydrate plain_host (signed_in\<lparr>storage := truncated_session_blob\<rparr>)) = Inr ()
   \<and> session (snd (hydrate plain_host (signed_in\<lparr>storage := truncated_session_blob\<rparr>))) = None
   \<and> currentUser (snd (hydrate plain_host (signed_in\<lparr>storage := truncated_session_blob\<rparr>))) = None
   \<and> error (snd (hydrate plain_host (signed_in\<lparr>storage := truncated_session_blob\<rparr>))) = None
   \<and> storage (signed_in\<lparr>storage := truncated_session_blob\<rparr>) (js ''userPreferences'') = Some []
   \<and> restore plain_host ''userPreferences'' setPreferences
         (signed_in\<lparr>storage := truncated_session_blob\<rparr>)
       = (Inr (), signed_in\<lparr>storage := truncated_session_blob\<rparr>)
   \<and> fst (hydrate plain_host (signed_in\<lparr>storage := truncated_session_blob\<rparr>))
       = fst (hydrate plain_host
           (signed_in\<lparr>storage := storage_delete (js ''userPreferences'') truncated_session_blob\<rparr>))
   \<and> same_store (snd (hydrate plain_host (signed_in\<lparr>storage := truncated_session_blob\<rparr>)))
        (snd (hydrate plain_host
           (signed_in\<lparr>storage := storage_delete (js ''userPreferences'') truncated_session_blob\<rparr>)))
   \<and> storage (snd (hydrate plain_host (signed_in\<lparr>storage := truncated_session_blob\<rparr>)))
         (js ''currentUser'')
       = storage (snd (hydrate plain_host
           (signed_in\<lparr>storage := storage_delete (js ''userPreferences'') truncated_session_blob\<rparr>)))
         (js ''currentUser'')"
proof -
  have stored: "storage (signed_in\<lparr>storage := truncated_session_blob\<rparr>) (js ''userSession'')
       = Some (take 20 (write_json (UserSession_snapshot demo_session)))"
    by (simp add: truncated_session_blob_def keys_distinct)
  have empty: "storage (signed_in\<lparr>storage := truncated_session_blob\<rparr>) (js ''userPreferences'')
       = Some []"
    by (simp add: truncated_session_blob_def keys_distinct)
  have rejected: "JSON_parse plain_host (take 20 (write_json (UserSession_snapshot demo_session)))
       = Inl (Error (js ''Unexpected token in JSON''))"
    by (simp add: plain_host_fields truncated_blob)
  have no_error: "error (signed_in\<lparr>storage := truncated_session_blob\<rparr>) = None"
    by (simp add: signed_in_def fresh_def)
  have other: "js ''currentUser'' \<noteq> js ''userPreferences''"
    by (simp add: keys_distinct)
  show ?thesis
    using hydrate_clears_state_on_corrupted_blob
            [of "''userSession''" "signed_in\<lparr>storage := truncated_session_blob\<rparr>"
                "take 20 (write_json (UserSession_snapshot demo_session))" plain_host
                "Error (js ''Unexpected token in JSON'')" "''userPreferences''" setPreferences]
      stored empty rejected truncated_blob(1) no_error other
    by auto
qed

text \<open>
  The claim as the spec words it fails when the corrupted blob is the empty string:
  \<open>JSON.parse("")\<close> throws, but \<open>hydrate\<close> skips an empty blob and restores the user
  stored beside it.
\<close>

theorem hydrate_skips_empty_blob_counterexample:
  "storage (fresh empty_session_blob) (js ''userSession'') = Some []
   \<and> JSON_parse plain_host [] = Inl (Error (js ''Unexpected token in JSON''))
   \<and> fst (hydrate plain_host (fresh empty_session_blob)) = Inr ()
   \<and> currentUser (snd (hydrate plain_host (fresh empty_session_blob))) = Some demo_user"
proof -
  define w0 where "w0 = setLoading True (fresh empty_session_blob)"
  have session_blob: "storage w0 (js ''userSession'') = Some []"
    by (simp add: w0_def setLoading_def fresh_def empty_session_blob_def keys_distinct)
  have user_blob: "storage w0 (js ''currentUser'') = Some (JSON_stringify plain_host (User_snapshot demo_user))"
    by (simp add: w0_def setLoading_def fresh_def empty_session_blob_def keys_distinct plain_host_fields)
  have no_preferences_blob: "storage w0 (js ''userPreferences'') = None"
    by (simp add: w0_def setLoading_def fresh_def empty_session_blob_def keys_distinct)
  have first: "restore plain_host ''userSession'' setSession w0 = (Inr (), w0)"
    using session_blob by (simp add: restore_def)
  have second: "restore plain_host ''currentUser'' setCurrentUser w0
                  = setCurrentUser plain_host (User_snapshot demo_user) w0"
    using restore_reads_back [OF user_blob plain_host_reads_back(2)] .
  have third: "restore plain_host ''userPreferences'' setPreferences w1 = (Inr (), w1)"
    if "storage w1 (js ''userPreferences'') = None" for w1
    using that by (simp add: restore_def)
  have "hydrate_attempt plain_host w0
          = (Inr (), w0\<lparr>currentUser := Some demo_user,
                 storage := (storage w0)(js ''currentUser'' \<mapsto>
                    JSON_stringify plain_host (User_snapshot demo_user))\<rparr>)"
    by (simp add: hydrate_attempt_def seq_def andThen_def first second setCurrentUser_snapshot
        third no_preferences_blob keys_distinct)
  then have "currentUser (snd (hydrate plain_host (fresh empty_session_blob))) = Some demo_user"
    by (simp add: hydrate_def try_catch_finally_def try_catch_def setLoading_frame w0_def [symmetric])
  moreover have "storage (fresh empty_session_blob) (js ''userSession'') = Some []"
    using session_blob by (simp add: w0_def setLoading_def)
  ultimately show ?thesis
    by (simp add: plain_host_rejects_empty_text hydrate_returns)
qed

section \<open>Persistence round trip\<close>

lemma persist_all_eq:
  "persist_all h s u p w =
     (Inr (), w\<lparr>session := Some s, currentUser := Some u,
                preferences := Some (merged_preferences (preferences w) p),
                storage := (storage w)
                  (js ''userSession'' \<mapsto> JSON_stringify h (UserSession_snapshot s),
                   js ''currentUser'' \<mapsto> JSON_stringify h (User_snapshot u),
                   js ''userPreferences'' \<mapsto>
                     JSON_stringify h (UserPreferences_snapshot (merged_preferences (preferences w) p)))\<rparr>)"
  by (simp add: persist_all_def seq_def andThen_def setSession_snapshot setCurrentUser_snapshot
      setPreferences_snapshot)

text \<open>Hydrating a fresh store from a storage that holds the three blobs of a session, a user and preferences.\<close>

lemma hydrate_from_blobs:
  assumes "st (js ''userSession'') = Some (JSON_stringify h (UserSession_snapshot s))"
    and "st (js ''currentUser'') = Some (JSON_stringify h (User_snapshot u))"
    and "st (js ''userPreferences'') = Some (JSON_stringify h (UserPreferences_snapshot q))"
    and "reads_back h (UserSession_snapshot s)"
    and "reads_back h (User_snapshot u)"
    and "reads_back h (UserPreferences_snapshot q)"
  shows "fst (hydrate h (fresh st)) = Inr ()
         \<and> session (snd (hydrate h (fresh st))) = Some s
         \<and> currentUser (snd (hydrate h (fresh st))) = Some u
         \<and> preferences (snd (hydrate h (fresh st))) = Some q"
proof -
  define w0 where "w0 = setLoading True (fresh st)"
  have start: "storage w0 = st" "preferences w0 = None"
    by (simp_all add: w0_def setLoading_def fresh_def)
  have first: "restore h ''userSession'' setSession w0
                 = (Inr (), w0\<lparr>session := Some s\<rparr>)"
  proof -
    have "st(js ''userSession'' \<mapsto> JSON_stringify h (UserSession_snapshot s)) = st"
      using assms(1) by (simp add: fun_upd_idem)
    then show ?thesis
      using restore_reads_back [OF _ assms(4), of w0 "''userSession''" setSession] assms(1)
      by (simp add: start setSession_snapshot)
  qed
  have second: "restore h ''currentUser'' setCurrentUser (w0\<lparr>session := Some s\<rparr>)
                 = (Inr (), w0\<lparr>session := Some s, currentUser := Some u\<rparr>)"
  proof -
    have "st(js ''currentUser'' \<mapsto> JSON_stringify h (User_snapshot u)) = st"
      using assms(2) by (simp add: fun_upd_idem)
    then show ?thesis
      using restore_reads_back [OF _ assms(5), of "w0\<lparr>session := Some s\<rparr>" "''currentUser''" setCurrentUser]
        assms(2)
      by (simp add: start setCurrentUser_snapshot)
  qed
  have third: "restore h ''userPreferences'' setPreferences (w0\<lparr>session := Some s, currentUser := Some u\<rparr>)
                 = (Inr (), w0\<lparr>session := Some s, currentUser := Some u, preferences := Some q\<rparr>)"
  proof -
    have "st(js ''userPreferences'' \<mapsto> JSON_stringify h (UserPreferences_snapshot q)) = st"
      using assms(3) by (simp add: fun_upd_idem)
    then show ?thesis
      using restore_reads_back [OF _ assms(6),
              of "w0\<lparr>session := Some s, currentUser := Some u\<rparr>" "''userPreferences''" setPreferences]
        assms(3)
      by (simp add: start setPreferences_snapshot merged_preferences_def)
  qed
  have "hydrate_attempt h w0
          = (Inr (), w0\<lparr>session := Some s, currentUser := Some u, preferences := Some q\<rparr>)"
    by (simp add: hydrate_attempt_def seq_def andThen_def first second third)
  then show ?thesis
    by (simp add: hydrate_def try_catch_finally_def try_catch_def setLoading_frame w0_def [symmetric])
qed

lemma hydrate_after_persist_all:
  assumes "reads_back h (UserSession_snapshot s)"
    and "reads_back h (User_snapshot u)"
    and "reads_back h (UserPreferences_snapshot (merged_preferences (preferences w) p))"
  shows "fst (hydrate h (fresh (storage (snd (persist_all h s u p w))))) = Inr ()
         \<and> session (snd (hydrate h (fresh (storage (snd (persist_all h s u p w)))))) = Some s
         \<and> currentUser (snd (hydrate h (fresh (storage (snd (persist_all h s u p w)))))) = Some u
         \<and> preferences (snd (hydrate h (fresh (storage (snd (persist_all h s u p w))))))
             = Some (merged_preferences (preferences w) p)"
  by (rule hydrate_from_blobs [OF _ _ _ assms]) (simp_all add: persist_all_eq keys_distinct)

lemma merged_preferences_is_argument:
  assumes "old = None \<or> language p \<noteq> []"
  shows "merged_preferences old p = p"
  using assms by (cases old) (auto simp add: merged_preferences_def)

text \<open>
  C8, as the code has it. Round-trip persistence: for every store state and every
  session \<open>s\<close>, user \<open>u\<close> and preferences \<open>p\<close>, running \<open>setSession(s)\<close>,
  \<open>setCurrentUser(u)\<close> and \<open>setPreferences(p)\<close> writes JSON blobs under exactly the
  three fixed keys \<open>"userSession"\<close>, \<open>"currentUser"\<close> and \<open>"userPreferences"\<close> (the
  rest of the storage is untouched), and, on a host that reads these blobs back, a
  subsequent \<open>hydrate()\<close> on a fresh store reads the same three keys and reconstructs
  \<open>session\<close> and \<open>currentUser\<close> equal to \<open>s\<close> and \<open>u\<close> and \<open>preferences\<close> equal to
  the preferences the first store held after \<open>setPreferences(p)\<close>. These are \<open>p\<close>
  whenever the first store had no preferences before or the language of \<open>p\<close> is not the
  empty string. (The host above reads back every such blob: \<open>plain_host_reads_back\<close>.)
\<close>

theorem persisted_state_is_restored_by_hydrate:
  assumes "reads_back h (UserSession_snapshot s)"
    and "reads_back h (User_snapshot u)"
    and "reads_back h (UserPreferences_snapshot (merged_preferences (preferences w) p))"
  shows "fst (persist_all h s u p w) = Inr ()
         \<and> storage (snd (persist_all h s u p w)) =
             (storage w)
               (js ''userSession'' \<mapsto> JSON_stringify h (UserSession_snapshot s),
                js ''currentUser'' \<mapsto> JSON_stringify h (User_snapshot u),
                js ''userPreferences'' \<mapsto>
                  JSON_stringify h (UserPreferences_snapshot (merged_preferences (preferences w) p)))
         \<and> preferences (snd (persist_all h s u p w)) = Some (merged_preferences (preferences w) p)
         \<and> fst (hydrate h (fresh (storage (snd (persist_all h s u p w))))) = Inr ()
         \<and> session (snd (hydrate h (fresh (storage (snd (persist_all h s u p w)))))) = Some s
         \<and> currentUser (snd (hydrate h (fresh (storage (snd (persist_all h s u p w)))))) = Some u
         \<and> preferences (snd (hydrate h (fresh (storage (snd (persist_all h s u p w))))))
             = preferences (snd (persist_all h s u p w))
         \<and> (preferences w = None \<or> language p \<noteq> [] \<longrightarrow>
              preferences (snd (hydrate h (fresh (storage (snd (persist_all h s u p w)))))) = Some p)"
proof -
  have stored: "preferences (snd (persist_all h s u p w)) = Some (merged_preferences (preferences w) p)"
    by (simp add: persist_all_eq)
  have "preferences w = None \<or> language p \<noteq> [] \<longrightarrow> merged_preferences (preferences w) p = p"
    using merged_preferences_is_argument [of "preferences w" p] by blast
  then show ?thesis
    using hydrate_after_persist_all [OF assms] stored
    by (simp add: persist_all_eq)
qed

lemma merged_examples:
  "merged_preferences (preferences (fresh Map.empty)) dark_vietnamese = dark_vietnamese"
  "merged_preferences (preferences signed_in) dark_unnamed
     = \<lparr>theme = Dark, language = js ''en'', notifications = False\<rparr>"
  by (simp_all add: merged_preferences_def fresh_def signed_in_def default_preferences_def
      dark_unnamed_def)

theorem persisted_state_is_restored_by_hydrate_witness:
  "reads_back plain_host (UserSession_snapshot demo_session)
   \<and> reads_back plain_host (User_snapshot demo_user)
   \<and> reads_back plain_host
        (UserPreferences_snapshot (merged_preferences (preferences (fresh Map.empty)) dark_vietnamese))
   \<and> (preferences (fresh Map.empty) = None \<or> language dark_vietnamese \<noteq> [])
   \<and> session (snd (hydrate plain_host (fresh (storage (snd
         (persist_all plain_host demo_session demo_user dark_vietnamese (fresh Map.empty)))))))
       = Some demo_session
   \<and> currentUser (snd (hydrate plain_host (fresh (storage (snd
         (persist_all plain_host demo_session demo_user dark_vietnamese (fresh Map.empty)))))))
       = Some demo_user
   \<and> preferences (snd (hydrate plain_host (fresh (storage (snd
         (persist_all plain_host demo_session demo_user dark_vietnamese (fresh Map.empty)))))))
       = Some dark_vietnamese"
proof -
  have third: "reads_back plain_host
        (UserPreferences_snapshot (merged_preferences (preferences (fresh Map.empty)) dark_vietnamese))"
    by (rule plain_host_reads_back)
  have fresh_store: "preferences (fresh Map.empty) = None"
    by (simp add: fresh_def)
  show ?thesis
    using persisted_state_is_restored_by_hydrate
            [OF plain_host_reads_back(1) plain_host_reads_back(2) third]
      plain_host_reads_back(1) [of demo_session] plain_host_reads_back(2) [of demo_user] third fresh_store
    by blast
qed

text \<open>
  The claim as the spec words it fails when the store already holds preferences and the
  language of \<open>p\<close> is the empty string: \<open>setPreferences\<close> keeps the old language, and
  that is what is written and restored.
\<close>

theorem empty_language_is_not_persisted_counterexample:
  "preferences (snd (hydrate plain_host (fresh (storage (snd
      (persist_all plain_host demo_session demo_user dark_unnamed signed_in))))))
     = Some \<lparr>theme = Dark, language = js ''en'', notifications = False\<rparr>
   \<and> \<lparr>theme = Dark, language = js ''en'', notifications = False\<rparr> \<noteq> dark_unnamed"
proof -
  have third: "reads_back plain_host
        (UserPreferences_snapshot (merged_preferences (preferences signed_in) dark_unnamed))"
    by (rule plain_host_reads_back)
  have restored: "preferences (snd (hydrate plain_host (fresh (storage (snd
      (persist_all plain_host demo_session demo_user dark_unnamed signed_in))))))
     = Some \<lparr>theme = Dark, language = js ''en'', notifications = False\<rparr>"
    using hydrate_after_persist_all
            [OF plain_host_reads_back(1) plain_host_reads_back(2) third]
    by (simp add: merged_examples)
  have "\<lparr>theme = Dark, language = js ''en'', notifications = False\<rparr> \<noteq> dark_unnamed"
    by (simp add: dark_unnamed_def js_def)
  then show ?thesis
    using restored by simp
qed

section \<open>Regular expressions: the matcher decides the language\<close>

lemma star_step:
  "c # s \<in> star A \<longleftrightarrow> (\<exists>u v. s = u @ v \<and> c # u \<in> A \<and> v \<in> star A)"
proof
  assume "c # s \<in> star A"
  then show "\<exists>u v. s = u @ v \<and> c # u \<in> A \<and> v \<in> star A"
  proof (induction "c # s" arbitrary: s rule: star.induct)
    case (star_app u v)
    show ?case
    proof (cases u)
      case Nil
      then show ?thesis
        using star_app by simp
    next
      case (Cons d u')
      then have "s = u' @ v" "c # u' \<in> A"
        using star_app.hyps by simp_all
      then show ?thesis
        using star_app.hyps(2) by blast
    qed
  qed
next
  assume "\<exists>u v. s = u @ v \<and> c # u \<in> A \<and> v \<in> star A"
  then obtain u v where "s = u @ v" "c # u \<in> A" "v \<in> star A"
    by blast
  then show "c # s \<in> star A"
    using star.star_app [of "c # u" A v] by simp
qed

lemma nullable_iff: "nullable r \<longleftrightarrow> [] \<in> lang r"
  by (induction r) (auto intro: star.star_nil)

lemma deriv_iff: "s \<in> lang (deriv c r) \<longleftrightarrow> c # s \<in> lang r"
proof (induction r arbitrary: s)
  case (RSeq r1 r2)
  have "c # s \<in> lang (RSeq r1 r2) \<longleftrightarrow>
          (\<exists>u v. s = u @ v \<and> c # u \<in> lang r1 \<and> v \<in> lang r2) \<or> ([] \<in> lang r1 \<and> c # s \<in> lang r2)"
    by (auto simp add: Cons_eq_append_conv)
  then show ?case
    using RSeq by (auto simp add: nullable_iff)
next
  case (RStar r)
  then show ?case
    by (auto simp add: star_step)
qed auto

text \<open>\<open>test\<close> on an anchored pattern succeeds exactly on the strings the pattern denotes.\<close>

lemma RegExp_test_iff: "RegExp_test r s \<longleftrightarrow> s \<in> lang r"
  by (induction s arbitrary: r) (simp_all add: nullable_iff deriv_iff)

lemma star_of_class: "star {[c] |c. P c} = {s. \<forall>c \<in> set s. P c}"
proof (intro set_eqI iffI)
  fix s
  assume "s \<in> star {[c] |c. P c}"
  then show "s \<in> {s. \<forall>c \<in> set s. P c}"
    by (induction rule: star.induct) auto
next
  fix s
  assume "s \<in> {s. \<forall>c \<in> set s. P c}"
  then show "s \<in> star {[c] |c. P c}"
  proof (induction s)
    case Nil
    then show ?case
      by (simp add: star.star_nil)
  next
    case (Cons c s)
    then have "[c] \<in> {[c] |c. P c}" "s \<in> star {[c] |c. P c}"
      by auto
    then show ?case
      using star.star_app [of "[c]" _ s] by simp
  qed
qed

lemma lang_seq: "s \<in> lang (RSeq r1 r2) \<longleftrightarrow> (\<exists>u v. s = u @ v \<and> u \<in> lang r1 \<and> v \<in> lang r2)"
  by auto

lemma lang_char: "s \<in> lang (RChar P) \<longleftrightarrow> (\<exists>c. s = [c] \<and> P c)"
  by auto

lemma lang_plus_class: "s \<in> lang (RPlus (RChar P)) \<longleftrightarrow> s \<noteq> [] \<and> (\<forall>c \<in> set s. P c)"
proof
  assume "s \<in> lang (RPlus (RChar P))"
  then obtain u v where "s = u @ v" "u \<in> lang (RChar P)" "v \<in> star (lang (RChar P))"
    unfolding RPlus_def lang_seq by auto
  then show "s \<noteq> [] \<and> (\<forall>c \<in> set s. P c)"
    using star_of_class [of P] by auto
next
  assume "s \<noteq> [] \<and> (\<forall>c \<in> set s. P c)"
  then obtain c v where s: "s = [c] @ v" and "P c" "\<forall>d \<in> set v. P d"
    by (cases s) auto
  then have "[c] \<in> lang (RChar P)" "v \<in> lang (RStar (RChar P))"
    using star_of_class [of P] by auto
  then show "s \<in> lang (RPlus (RChar P))"
    unfolding RPlus_def lang_seq s by blast
qed

text \<open>
  The strings the email pattern denotes: a local part, \<open>@\<close>, a domain, a dot and a
  last part, the three parts non-empty and free of white space and \<open>@\<close>.
\<close>

lemma lang_email_pattern:
  "s \<in> lang email_pattern \<longleftrightarrow>
     (\<exists>a b c. s = a @ [0x40] @ b @ [0x2E] @ c \<and> a \<noteq> [] \<and> b \<noteq> [] \<and> c \<noteq> []
        \<and> (\<forall>x \<in> set (a @ b @ c). \<not> WhiteSpace x \<and> x \<noteq> 0x40))"
proof
  assume "s \<in> lang email_pattern"
  then obtain a v1 where 1: "s = a @ v1" "a \<in> lang (RPlus (RChar not_space_at))"
      and "v1 \<in> lang (RSeq (RChar (\<lambda>c. c = 0x40)) (RSeq (RPlus (RChar not_space_at))
                 (RSeq (RChar (\<lambda>c. c = 0x2E)) (RPlus (RChar not_space_at)))))"
    unfolding email_pattern_def lang_seq [of s] by blast
  then obtain v2 where 2: "v1 = [0x40] @ v2"
      and "v2 \<in> lang (RSeq (RPlus (RChar not_space_at))
                 (RSeq (RChar (\<lambda>c. c = 0x2E)) (RPlus (RChar not_space_at))))"
    unfolding lang_seq [of v1] lang_char by blast
  then obtain b v3 where 3: "v2 = b @ v3" "b \<in> lang (RPlus (RChar not_space_at))"
      and "v3 \<in> lang (RSeq (RChar (\<lambda>c. c = 0x2E)) (RPlus (RChar not_space_at)))"
    unfolding lang_seq [of v2] by blast
  then obtain c where 4: "v3 = [0x2E] @ c" "c \<in> lang (RPlus (RChar not_space_at))"
    unfolding lang_seq [of v3] lang_char by blast
  have "s = a @ [0x40] @ b @ [0x2E] @ c"
    by (simp add: 1 2 3 4)
  moreover have "a \<noteq> [] \<and> b \<noteq> [] \<and> c \<noteq> [] \<and> (\<forall>x \<in> set (a @ b @ c). \<not> WhiteSpace x \<and> x \<noteq> 0x40)"
    using 1(2) 3(2) 4(2) by (auto simp add: lang_plus_class not_space_at_def)
  ultimately show "\<exists>a b c. s = a @ [0x40] @ b @ [0x2E] @ c \<and> a \<noteq> [] \<and> b \<noteq> [] \<and> c \<noteq> []
        \<and> (\<forall>x \<in> set (a @ b @ c). \<not> WhiteSpace x \<and> x \<noteq> 0x40)"
    by blast
next
  assume "\<exists>a b c. s = a @ [0x40] @ b @ [0x2E] @ c \<and> a \<noteq> [] \<and> b \<noteq> [] \<and> c \<noteq> []
        \<and> (\<forall>x \<in> set (a @ b @ c). \<not> WhiteSpace x \<and> x \<noteq> 0x40)"
  then obtain a b c where s: "s = a @ [0x40] @ b @ [0x2E] @ c"
      and "a \<noteq> []" "b \<noteq> []" "c \<noteq> []"
      and "\<forall>x \<in> set (a @ b @ c). \<not> WhiteSpace x \<and> x \<noteq> 0x40"
    by blast
  then have parts: "a \<in> lang (RPlus (RChar not_space_at))" "b \<in> lang (RPlus (RChar not_space_at))"
      "c \<in> lang (RPlus (RChar not_space_at))"
    by (auto simp add: lang_plus_class not_space_at_def)
  have "[0x2E] @ c \<in> lang (RSeq (RChar (\<lambda>c. c = 0x2E)) (RPlus (RChar not_space_at)))"
    unfolding lang_seq lang_char using parts(3) by blast
  then have "b @ [0x2E] @ c \<in> lang (RSeq (RPlus (RChar not_space_at))
                 (RSeq (RChar (\<lambda>c. c = 0x2E)) (RPlus (RChar not_space_at))))"
    unfolding lang_seq [of "b @ [0x2E] @ c"] using parts(2) by blast
  then have "[0x40] @ b @ [0x2E] @ c \<in> lang (RSeq (RChar (\<lambda>c. c = 0x40)) (RSeq (RPlus (RChar not_space_at))
                 (RSeq (RChar (\<lambda>c. c = 0x2E)) (RPlus (RChar not_space_at)))))"
    unfolding lang_seq [of "[0x40] @ b @ [0x2E] @ c"] lang_char by blast
  then show "s \<in> lang email_pattern"
    unfolding email_pattern_def s lang_seq [of "a @ [0x40] @ b @ [0x2E] @ c"] using parts(1) by blast
qed

section \<open>Email validation\<close>

text \<open>
  C4. For every store state, \<open>emailValidationError\<close> returns "Email can't be blank"
  when the user email is the empty string, "Email must be at least 6 characters" when
  the email is non-empty with length below 6, "Must be a valid email address" when the
  email has length at least 6 but the pattern \<open>/^[^\s@]+@[^\s@]+\.[^\s@]+$/\<close> does not
  match it, and the empty string otherwise; the rules apply in this order. The pattern
  matches exactly the strings made of a part, \<open>@\<close>, a part, a dot and a part, where
  the parts are non-empty and free of white space and \<open>@\<close>.
\<close>

theorem emailValidationError_applies_three_rules_in_order:
  "emailValidationError w =
     (if userEmail w = [] then js ''Email can't be blank''
      else if length (userEmail w) < 6 then js ''Email must be at least 6 characters''
      else if userEmail w \<notin> lang email_pattern then js ''Must be a valid email address''
      else [])
   \<and> (userEmail w \<in> lang email_pattern \<longleftrightarrow>
        (\<exists>a b c. userEmail w = a @ [0x40] @ b @ [0x2E] @ c \<and> a \<noteq> [] \<and> b \<noteq> [] \<and> c \<noteq> []
           \<and> (\<forall>x \<in> set (a @ b @ c). \<not> WhiteSpace x \<and> x \<noteq> 0x40)))"
  using lang_email_pattern [of "userEmail w"]
  by (simp add: emailValidationError_def Let_def RegExp_test_iff)

lemma example_emails:
  "js ''a@b.c'' \<noteq> []" "length (js ''a@b.c'') = 5"
  "js ''abcdef'' \<noteq> []" "length (js ''abcdef'') = 6"
  "js ''demo@example.com'' \<noteq> []" "length (js ''demo@example.com'') = 16"
  by (simp_all add: js_def)

lemma example_matches:
  "RegExp_test email_pattern (js ''a@b.c'')"
  "\<not> RegExp_test email_pattern (js ''abcdef'')"
  "RegExp_test email_pattern (js ''demo@example.com'')"
  by code_simp+

theorem emailValidationError_applies_three_rules_in_order_witness:
  "emailValidationError (fresh Map.empty) = js ''Email can't be blank''
   \<and> js ''a@b.c'' \<in> lang email_pattern
   \<and> emailValidationError (with_email (js ''a@b.c'')) = js ''Email must be at least 6 characters''
   \<and> js ''abcdef'' \<notin> lang email_pattern
   \<and> emailValidationError (with_email (js ''abcdef'')) = js ''Must be a valid email address''
   \<and> js ''demo@example.com'' \<in> lang email_pattern
   \<and> emailValidationError signed_in = []"
proof -
  have emails: "userEmail (fresh Map.empty) = []" "userEmail (with_email e) = e"
    "userEmail signed_in = js ''demo@example.com''" for e
    by (simp_all add: userEmail_def fresh_def with_email_def signed_in_def demo_user_def)
  show ?thesis
    using emailValidationError_applies_three_rules_in_order [of "fresh Map.empty"]
      emailValidationError_applies_three_rules_in_order [of "with_email (js ''a@b.c'')"]
      emailValidationError_applies_three_rules_in_order [of "with_email (js ''abcdef'')"]
      emailValidationError_applies_three_rules_in_order [of signed_in]
      example_matches
    by (simp add: emails example_emails RegExp_test_iff)
qed

end
